theory Spec2Isabelle
  imports Main "HOL-Library.Word" "HOL-Library.AList"
begin

unbundle bit_operations_syntax

section \<open>Machine model\<close>

text \<open>
  The allocator of \<open>mm.c\<close> is embedded for the LP64 data model: a pointer, a
  \<open>uintptr_t\<close> and a \<open>size_t\<close> are 64-bit words (so \<open>WSIZE = sizeof(void *) = 8\<close>),
  arithmetic on them wraps, and comparisons on them are unsigned. A C \<open>int\<close> is a HOL
  integer; the cast \<open>(int) x\<close> of a 64-bit value keeps its low 32 bits, read as two's
  complement (\<open>to_int\<close>), an \<open>int\<close> used in \<open>size_t\<close> arithmetic is converted by
  \<open>word_of_int\<close>, and \<open>int\<close> additions and subtractions are wrapped to 32 bits
  (\<open>wrap_int\<close>).

  The memory is word-granular: it maps an address to the \<open>uintptr_t\<close> stored there.
  Every access of the allocator is a word access (\<open>GET\<close>, \<open>PUT\<close>, the two link
  fields of \<open>struct node\<close>, \<open>bin_list[i]\<close>); only \<open>memcpy\<close> copies bytes.
\<close>

type_synonym uintptr = "64 word"

abbreviation NULL :: uintptr where "NULL \<equiv> 0"

definition to_int :: "uintptr \<Rightarrow> int" where
  "to_int x = sint (ucast x :: 32 word)"

definition wrap_int :: "int \<Rightarrow> int" where
  "wrap_int i = sint (word_of_int i :: 32 word)"

datatype error = AssertionFailed

definition bindE :: "error + 'a \<Rightarrow> ('a \<Rightarrow> error + 'b) \<Rightarrow> error + 'b" where
  "bindE r f = (case r of Inl e \<Rightarrow> Inl e | Inr x \<Rightarrow> f x)"

record heap_state =
  mem :: "uintptr \<Rightarrow> uintptr"
  mem_brk :: uintptr
  mem_max_addr :: uintptr
  heap_listp :: uintptr
  bin_list :: uintptr

subsection \<open>Constants and macros\<close>

definition ASIZE :: uintptr where "ASIZE = 8"
definition WSIZE :: uintptr where "WSIZE = 8"
definition DSIZE :: uintptr where "DSIZE = 2 * WSIZE"
definition TSIZE :: uintptr where "TSIZE = 3 * WSIZE"
definition CHUNKSIZE :: uintptr where "CHUNKSIZE = 4104"
definition BIN_NUM :: nat where "BIN_NUM = 15"
definition BOUND :: "'a::numeral" where "BOUND = 128"

definition MAX_of :: "uintptr \<Rightarrow> uintptr \<Rightarrow> uintptr" where
  "MAX_of x y = (if x > y then x else y)"

definition PACK :: "uintptr \<Rightarrow> uintptr \<Rightarrow> uintptr" where
  "PACK sz alloc = sz OR alloc"

definition GET :: "heap_state \<Rightarrow> uintptr \<Rightarrow> uintptr" where
  "GET s p = mem s p"

definition PUT :: "heap_state \<Rightarrow> uintptr \<Rightarrow> uintptr \<Rightarrow> heap_state" where
  "PUT s p val = s\<lparr>mem := (mem s)(p := val)\<rparr>"

definition GET_SIZE :: "heap_state \<Rightarrow> uintptr \<Rightarrow> uintptr" where
  "GET_SIZE s p = GET s p AND NOT (WSIZE - 1)"

definition GET_ALLOC :: "heap_state \<Rightarrow> uintptr \<Rightarrow> uintptr" where
  "GET_ALLOC s p = GET s p AND 1"

definition HDRP :: "uintptr \<Rightarrow> uintptr" where
  "HDRP bp = bp - WSIZE"

definition FTRP :: "heap_state \<Rightarrow> uintptr \<Rightarrow> uintptr" where
  "FTRP s bp = bp + GET_SIZE s (HDRP bp) - DSIZE"

definition NEXT_BLKP :: "heap_state \<Rightarrow> uintptr \<Rightarrow> uintptr" where
  "NEXT_BLKP s bp = bp + GET_SIZE s (bp - WSIZE)"

definition PREV_BLKP :: "heap_state \<Rightarrow> uintptr \<Rightarrow> uintptr" where
  "PREV_BLKP s bp = bp - GET_SIZE s (bp - DSIZE)"

text \<open>
  \<open>struct node { struct node *next; struct node *prev; }\<close> overlays the first two
  payload words of a free block: \<open>bp->next\<close> is the word at \<open>bp\<close>, \<open>bp->prev\<close> the
  word at \<open>bp + WSIZE\<close>. \<open>bin_list[i]\<close> is the word at \<open>bin_list + i * WSIZE\<close>.
\<close>

definition next_field :: "uintptr \<Rightarrow> uintptr" where
  "next_field bp = bp"

definition prev_field :: "uintptr \<Rightarrow> uintptr" where
  "prev_field bp = bp + WSIZE"

definition bin_slot :: "heap_state \<Rightarrow> nat \<Rightarrow> uintptr" where
  "bin_slot s i = bin_list s + of_nat i * WSIZE"

subsection \<open>The region provider\<close>

text \<open>
  Modelled from the spec: \<open>mem_sbrk\<close> of \<open>memlib.c\<close> is not part of the sources. The
  region provider appends \<open>incr\<close> bytes to the end of the managed region and returns
  the address of the first new byte, or the failure sentinel \<open>(void *)-1\<close>. Here it
  fails exactly when the request would pass the end \<open>mem_max_addr\<close> of the region, and
  a failed request changes nothing.
\<close>

definition mem_sbrk :: "heap_state \<Rightarrow> uintptr \<Rightarrow> uintptr \<times> heap_state" where
  "mem_sbrk s incr =
     (if unat (mem_brk s) + unat incr > unat (mem_max_addr s) then (- 1, s)
      else (mem_brk s, s\<lparr>mem_brk := mem_brk s + incr\<rparr>))"

section \<open>The segregated free lists\<close>

subsection \<open>get_list_index\<close>

function get_list_index_loop :: "int \<Rightarrow> nat \<Rightarrow> nat" where
  "get_list_index_loop count list =
     (if list < BIN_NUM then
        (if count \<le> BOUND \<or> list = BIN_NUM - 1 then list
         else get_list_index_loop (drop_bit 1 count) (list + 1))
      else BIN_NUM - 1)"
  by pat_completeness auto
termination
  by (relation "measure (\<lambda>(count, list). BIN_NUM - list)") auto

declare get_list_index_loop.simps [simp del]

definition get_list_index :: "int \<Rightarrow> error + nat" where
  "get_list_index sz =
     (if sz \<ge> 0 then Inr (get_list_index_loop sz 0) else Inl AssertionFailed)"

subsection \<open>insert_block and delete_block\<close>

definition insert_block :: "heap_state \<Rightarrow> uintptr \<Rightarrow> int \<Rightarrow> error + heap_state" where
  "insert_block s bp sz =
     (if bp = NULL then Inl AssertionFailed
      else if sz \<noteq> to_int (GET_SIZE s (HDRP bp)) then Inl AssertionFailed
      else bindE (get_list_index sz) (\<lambda>list_idx.
        let start_block = GET s (bin_slot s list_idx) in
        if start_block = NULL then
          (let s1 = PUT s (prev_field bp) NULL;
               s2 = PUT s1 (next_field bp) NULL
           in Inr (PUT s2 (bin_slot s2 list_idx) bp))
        else
          (let s1 = PUT s (prev_field bp) NULL;
               s2 = PUT s1 (next_field bp) start_block;
               s3 = PUT s2 (prev_field start_block) bp
           in Inr (PUT s3 (bin_slot s3 list_idx) bp))))"

definition delete_block :: "heap_state \<Rightarrow> uintptr \<Rightarrow> error + heap_state" where
  "delete_block s bp =
     (if bp = NULL then Inl AssertionFailed
      else
        let block_size = GET_SIZE s (HDRP bp) in
        bindE (get_list_index (to_int block_size)) (\<lambda>list_idx.
          let bigger = GET s (prev_field bp);
              smaller = GET s (next_field bp)
          in
            if bigger = NULL then
              (if smaller = NULL then Inr (PUT s (bin_slot s list_idx) NULL)
               else
                 (let s1 = PUT s (prev_field smaller) NULL
                  in Inr (PUT s1 (bin_slot s1 list_idx) smaller)))
            else
              (if smaller = NULL then Inr (PUT s (next_field bigger) NULL)
               else
                 (let s1 = PUT s (next_field bigger) smaller
                  in Inr (PUT s1 (prev_field smaller) bigger)))))"

subsection \<open>find_block_list and find_fit\<close>

text \<open>
  The walk along the \<open>next\<close> links of a bin does not return on a cyclic list in
  which no block fits: the loop is a partial function, \<open>None\<close> meaning that it does
  not return.
\<close>

partial_function (option) find_block_list_loop ::
    "heap_state \<Rightarrow> uintptr \<Rightarrow> int \<Rightarrow> uintptr option" where
  "find_block_list_loop s bp asize =
     (if bp \<noteq> NULL then
        (let block_size = GET_SIZE s (HDRP bp) in
         if to_int block_size \<ge> asize then Some bp
         else find_block_list_loop s (GET s (next_field bp)) asize)
      else Some NULL)"

declare find_block_list_loop.simps [code]

definition find_block_list :: "heap_state \<Rightarrow> uintptr \<Rightarrow> int \<Rightarrow> (error + uintptr) option" where
  "find_block_list s bp asize =
     (if asize > 0 then map_option Inr (find_block_list_loop s bp asize)
      else Some (Inl AssertionFailed))"

function find_fit_loop :: "heap_state \<Rightarrow> uintptr \<Rightarrow> nat \<Rightarrow> (error + uintptr) option" where
  "find_fit_loop s asize i =
     (if i < BIN_NUM then
        (case find_block_list s (GET s (bin_slot s i)) (to_int asize) of
           None \<Rightarrow> None
         | Some (Inl e) \<Rightarrow> Some (Inl e)
         | Some (Inr bp) \<Rightarrow>
             if bp \<noteq> NULL then Some (Inr bp) else find_fit_loop s asize (i + 1))
      else Some (Inr NULL))"
  by pat_completeness auto
termination
  by (relation "measure (\<lambda>(s, asize, i). BIN_NUM - i)") auto

declare find_fit_loop.simps [simp del]

definition find_fit :: "heap_state \<Rightarrow> uintptr \<Rightarrow> (error + uintptr) option" where
  "find_fit s asize =
     (case get_list_index (to_int asize) of
        Inl e \<Rightarrow> Some (Inl e)
      | Inr list_idx \<Rightarrow> find_fit_loop s asize list_idx)"

section \<open>Placement, coalescing and heap extension\<close>

definition place :: "heap_state \<Rightarrow> uintptr \<Rightarrow> uintptr \<Rightarrow> error + (uintptr \<times> heap_state)" where
  "place s bp asize =
     (let csize = GET_SIZE s (HDRP bp) in
      if csize - asize \<ge> WSIZE + TSIZE then
        bindE (delete_block s bp) (\<lambda>s1.
          let s2 = PUT s1 (HDRP bp) (PACK asize 1);
              s3 = PUT s2 (FTRP s2 bp) (PACK asize 1);
              bp' = NEXT_BLKP s3 bp;
              s4 = PUT s3 (HDRP bp') (PACK (csize - asize) 0);
              s5 = PUT s4 (FTRP s4 bp') (PACK (csize - asize) 0)
          in bindE (insert_block s5 bp' (to_int (csize - asize))) (\<lambda>s6. Inr (bp', s6)))
      else
        bindE (delete_block s bp) (\<lambda>s1.
          let s2 = PUT s1 (HDRP bp) (PACK csize 1);
              s3 = PUT s2 (FTRP s2 bp) (PACK csize 1)
          in Inr (bp, s3)))"

definition coalesce :: "heap_state \<Rightarrow> uintptr \<Rightarrow> error + (uintptr \<times> heap_state)" where
  "coalesce s bp =
     (let sz = GET_SIZE s (HDRP bp);
          prev_alloc = (GET_ALLOC s (FTRP s (PREV_BLKP s bp)) \<noteq> 0);
          next_alloc = (GET_ALLOC s (HDRP (NEXT_BLKP s bp)) \<noteq> 0)
      in
        if prev_alloc \<and> next_alloc then Inr (bp, s)
        else if prev_alloc \<and> \<not> next_alloc then
          bindE (delete_block s bp) (\<lambda>s1.
          bindE (delete_block s1 (NEXT_BLKP s1 bp)) (\<lambda>s2.
            let sz' = sz + GET_SIZE s2 (HDRP (NEXT_BLKP s2 bp));
                s3 = PUT s2 (HDRP bp) (PACK sz' 0);
                s4 = PUT s3 (FTRP s3 bp) (PACK sz' 0)
            in bindE (insert_block s4 bp (to_int sz')) (\<lambda>s5. Inr (bp, s5))))
        else if \<not> prev_alloc \<and> next_alloc then
          bindE (delete_block s bp) (\<lambda>s1.
          bindE (delete_block s1 (PREV_BLKP s1 bp)) (\<lambda>s2.
            let sz' = sz + GET_SIZE s2 (HDRP (PREV_BLKP s2 bp));
                s3 = PUT s2 (FTRP s2 bp) (PACK sz' 0);
                s4 = PUT s3 (HDRP (PREV_BLKP s3 bp)) (PACK sz' 0);
                bp' = PREV_BLKP s4 bp
            in bindE (insert_block s4 bp' (to_int sz')) (\<lambda>s5. Inr (bp', s5))))
        else
          bindE (delete_block s bp) (\<lambda>s1.
          bindE (delete_block s1 (NEXT_BLKP s1 bp)) (\<lambda>s2.
          bindE (delete_block s2 (PREV_BLKP s2 bp)) (\<lambda>s3.
            let sz' = sz + (GET_SIZE s3 (HDRP (PREV_BLKP s3 bp))
                            + GET_SIZE s3 (FTRP s3 (NEXT_BLKP s3 bp)));
                s4 = PUT s3 (HDRP (PREV_BLKP s3 bp)) (PACK sz' 0);
                s5 = PUT s4 (FTRP s4 (NEXT_BLKP s4 bp)) (PACK sz' 0);
                bp' = PREV_BLKP s5 bp
            in bindE (insert_block s5 bp' (to_int sz')) (\<lambda>s6. Inr (bp', s6))))))"

text \<open>The number of bytes that \<open>extend_heap\<close> requests for \<open>words\<close> words.\<close>

definition extend_size :: "uintptr \<Rightarrow> uintptr" where
  "extend_size words = (if words mod 2 \<noteq> 0 then (words + 1) * WSIZE else words * WSIZE)"

definition extend_heap :: "heap_state \<Rightarrow> uintptr \<Rightarrow> error + (uintptr \<times> heap_state)" where
  "extend_heap s words =
     (let sz = extend_size words;
          (bp, s0) = mem_sbrk s sz
      in
        if bp = - 1 then Inr (NULL, s0)
        else
          (let s1 = PUT s0 (HDRP bp) (PACK sz 0);
               s2 = PUT s1 (FTRP s1 bp) (PACK sz 0);
               s3 = PUT s2 (HDRP (NEXT_BLKP s2 bp)) (PACK 0 1)
           in bindE (insert_block s3 bp (to_int (GET_SIZE s3 (HDRP bp)))) (\<lambda>s4.
                coalesce s4 bp)))"

section \<open>The allocator's entry points\<close>

definition mm_init :: "heap_state \<Rightarrow> error + (int \<times> heap_state)" where
  "mm_init s =
     (let (p, s0) = mem_sbrk s ((4 + of_nat BIN_NUM) * WSIZE);
          s1 = s0\<lparr>heap_listp := p\<rparr>
      in
        if p = - 1 then Inr (- 1, s1)
        else
          (let s2 = s1\<lparr>bin_list := heap_listp s1\<rparr>;
               s3 = fold (\<lambda>i t. PUT t (bin_slot t i) NULL) [0..<BIN_NUM] s2;
               s4 = PUT s3 (heap_listp s3 + of_nat BIN_NUM * WSIZE) 0;
               s5 = PUT s4 (heap_listp s4 + (of_nat BIN_NUM + 1) * WSIZE) (PACK DSIZE 1);
               s6 = PUT s5 (heap_listp s5 + (of_nat BIN_NUM + 2) * WSIZE) (PACK DSIZE 1);
               s7 = PUT s6 (heap_listp s6 + (of_nat BIN_NUM + 3) * WSIZE) (PACK 0 1);
               s8 = s7\<lparr>heap_listp := heap_listp s7 + (of_nat BIN_NUM + 4) * WSIZE\<rparr>
           in bindE (extend_heap s8 (CHUNKSIZE div WSIZE)) (\<lambda>(bp, s9).
                if bp = NULL then Inr (- 1, s9) else Inr (0, s9))))"

text \<open>The adjusted block size that \<open>mm_malloc\<close> computes from the requested size.\<close>

definition malloc_asize :: "uintptr \<Rightarrow> uintptr" where
  "malloc_asize sz =
     (let asize = (if sz \<le> DSIZE then ASIZE + TSIZE
                   else if sz mod WSIZE = 0 then DSIZE + sz
                   else DSIZE + ((sz div WSIZE) + 1) * WSIZE);
          asize = (if sz mod BOUND = 0 \<and> sz \<noteq> BOUND then DSIZE + sz + BOUND else asize);
          asize = (if sz = 4092 then WSIZE + CHUNKSIZE else asize)
      in asize)"

text \<open>The number of bytes by which \<open>mm_malloc\<close> asks to extend the heap.\<close>

definition malloc_extendsize :: "uintptr \<Rightarrow> uintptr" where
  "malloc_extendsize asize =
     (let extendsize = MAX_of asize CHUNKSIZE
      in if extendsize mod WSIZE \<noteq> 0 then ((extendsize div WSIZE) + 1) * WSIZE
         else extendsize)"

definition mm_malloc :: "heap_state \<Rightarrow> uintptr \<Rightarrow> (error + (uintptr \<times> heap_state)) option" where
  "mm_malloc s sz =
     (if sz = 0 then Some (Inr (NULL, s))
      else
        let asize = malloc_asize sz in
        case find_fit s asize of
          None \<Rightarrow> None
        | Some (Inl e) \<Rightarrow> Some (Inl e)
        | Some (Inr bp) \<Rightarrow>
            if bp \<noteq> NULL then
              Some (bindE (place s bp asize) (\<lambda>(r, s1). Inr (bp, s1)))
            else
              (let extendsize = malloc_extendsize asize in
               Some (bindE (extend_heap s (extendsize div WSIZE)) (\<lambda>(bp, s1).
                 if bp = NULL then Inr (NULL, s1)
                 else bindE (place s1 bp asize) (\<lambda>(r, s2). Inr (bp, s2))))))"

definition mm_free :: "heap_state \<Rightarrow> uintptr \<Rightarrow> error + heap_state" where
  "mm_free s bp =
     (if bp = NULL then Inr s
      else
        let sz = GET_SIZE s (HDRP bp);
            s1 = PUT s (HDRP bp) (PACK sz 0);
            s2 = PUT s1 (FTRP s1 bp) (PACK sz 0)
        in bindE (insert_block s2 bp (to_int sz)) (\<lambda>s3.
           bindE (coalesce s3 bp) (\<lambda>(r, s4). Inr s4)))"

text \<open>
  \<open>memcpy\<close> copies \<open>n\<close> bytes. On the word-granular memory it copies the \<open>n div 8\<close>
  full words, and for a last partial word it replaces the low \<open>n mod 8\<close> bytes of the
  destination word by those of the source word (little endian).
\<close>

definition memcpy :: "heap_state \<Rightarrow> uintptr \<Rightarrow> uintptr \<Rightarrow> uintptr \<Rightarrow> heap_state" where
  "memcpy s dst src n =
     (let full = unat n div 8;
          rest = unat n mod 8;
          s1 = fold (\<lambda>i t. PUT t (dst + of_nat i * 8) (GET s (src + of_nat i * 8))) [0..<full] s
      in
        if rest = 0 then s1
        else PUT s1 (dst + of_nat full * 8)
               ((GET s (src + of_nat full * 8) AND mask (8 * rest))
                OR (GET s1 (dst + of_nat full * 8) AND NOT (mask (8 * rest)))))"

text \<open>
  The block size that \<open>mm_realloc\<close> computes from the requested size: \<open>new_size\<close> and
  \<open>realloc_asize\<close> are \<open>int\<close> variables.
\<close>

definition realloc_asize_of :: "uintptr \<Rightarrow> int" where
  "realloc_asize_of sz =
     (let new_size = to_int sz;
          new_size = (if word_of_int new_size mod WSIZE \<noteq> 0
                      then to_int (((word_of_int new_size div WSIZE) + 1) * WSIZE)
                      else new_size)
      in wrap_int (new_size + to_int DSIZE))"

text \<open>The last part of \<open>mm_realloc\<close>: allocate a new block, copy, free the old block.\<close>

definition mm_realloc_fallback ::
    "heap_state \<Rightarrow> uintptr \<Rightarrow> uintptr \<Rightarrow> uintptr \<Rightarrow> (error + (uintptr \<times> heap_state)) option" where
  "mm_realloc_fallback s ptr sz oldsize =
     (case mm_malloc s sz of
        None \<Rightarrow> None
      | Some (Inl e) \<Rightarrow> Some (Inl e)
      | Some (Inr (newptr, s1)) \<Rightarrow>
          if newptr = NULL then Some (Inr (NULL, s1))
          else
            (let oldsize' = (if sz < oldsize then sz else oldsize);
                 s2 = memcpy s1 newptr ptr oldsize'
             in Some (bindE (mm_free s2 ptr) (\<lambda>s3. Inr (newptr, s3)))))"

text \<open>
  In \<open>mm_realloc\<close> the macro \<open>PACK\<close> is applied to \<open>int\<close> arguments: the \<open>int\<close>
  result of \<open>|\<close> is converted to \<open>uintptr_t\<close> by \<open>PUT\<close>.
\<close>

definition mm_realloc ::
    "heap_state \<Rightarrow> uintptr \<Rightarrow> uintptr \<Rightarrow> (error + (uintptr \<times> heap_state)) option" where
  "mm_realloc s ptr sz =
     (if sz = 0 then Some (bindE (mm_free s ptr) (\<lambda>s1. Inr (NULL, s1)))
      else if ptr = NULL then mm_malloc s sz
      else
        let realloc_asize = realloc_asize_of sz;
            oldsize = GET_SIZE s (HDRP ptr);
            diffsize = to_int (oldsize - word_of_int realloc_asize)
        in
          if realloc_asize = to_int oldsize then Some (Inr (ptr, s))
          else if diffsize > 0 then
            (if diffsize \<ge> to_int (2 * DSIZE) then
               (let s1 = PUT s (HDRP ptr) (word_of_int (realloc_asize OR 1));
                    s2 = PUT s1 (FTRP s1 ptr) (word_of_int (realloc_asize OR 1));
                    ptr' = NEXT_BLKP s2 ptr;
                    s3 = PUT s2 (HDRP ptr') (word_of_int (diffsize OR 0));
                    s4 = PUT s3 (FTRP s3 ptr') (word_of_int (diffsize OR 0))
                in Some (bindE (insert_block s4 ptr' diffsize) (\<lambda>s5.
                         bindE (coalesce s5 ptr') (\<lambda>(r, s6). Inr (PREV_BLKP s6 ptr', s6)))))
             else Some (Inr (ptr, s)))
          else if diffsize < 0 then
            (let nextsize = GET_SIZE s (HDRP (NEXT_BLKP s ptr)) in
             if GET_ALLOC s (HDRP (NEXT_BLKP s ptr)) = 0 then
               (if to_int nextsize \<ge> to_int (word_of_int (wrap_int \<bar>diffsize\<bar>) + 2 * DSIZE) then
                  Some (bindE (delete_block s (NEXT_BLKP s ptr)) (\<lambda>s1.
                    let s2 = PUT s1 (HDRP ptr) (word_of_int (realloc_asize OR 1));
                        s3 = PUT s2 (FTRP s2 ptr) (word_of_int (realloc_asize OR 1));
                        ptr' = NEXT_BLKP s3 ptr;
                        newNextSize = wrap_int (to_int nextsize - wrap_int \<bar>diffsize\<bar>);
                        s4 = PUT s3 (HDRP ptr') (word_of_int (newNextSize OR 0));
                        s5 = PUT s4 (FTRP s4 ptr') (word_of_int (newNextSize OR 0))
                    in bindE (insert_block s5 ptr' newNextSize) (\<lambda>s6.
                       bindE (coalesce s6 ptr') (\<lambda>(r, s7). Inr (PREV_BLKP s7 ptr', s7)))))
                else if to_int nextsize \<ge> wrap_int \<bar>diffsize\<bar> then
                  Some (bindE (delete_block s (NEXT_BLKP s ptr)) (\<lambda>s1.
                    let s2 = PUT s1 (HDRP ptr) (word_of_int (to_int (oldsize + nextsize) OR 1));
                        s3 = PUT s2 (FTRP s2 ptr) (word_of_int (to_int (oldsize + nextsize) OR 1))
                    in Inr (ptr, s3)))
                else mm_realloc_fallback s ptr sz oldsize)
             else mm_realloc_fallback s ptr sz oldsize)
          else mm_realloc_fallback s ptr sz oldsize)"

text \<open>
  The conditions under which \<open>mm_realloc\<close>, called with a non-null pointer and a
  non-zero size, returns from none of its in-place branches and reaches its last part.
\<close>

definition realloc_must_move :: "heap_state \<Rightarrow> uintptr \<Rightarrow> uintptr \<Rightarrow> bool" where
  "realloc_must_move s ptr sz \<longleftrightarrow>
     (let oldsize = GET_SIZE s (HDRP ptr);
          diffsize = to_int (oldsize - word_of_int (realloc_asize_of sz));
          nextsize = GET_SIZE s (HDRP (NEXT_BLKP s ptr))
      in realloc_asize_of sz \<noteq> to_int oldsize \<and> \<not> diffsize > 0 \<and>
         (diffsize < 0 \<and> GET_ALLOC s (HDRP (NEXT_BLKP s ptr)) = 0 \<longrightarrow>
            \<not> to_int nextsize \<ge> to_int (word_of_int (wrap_int \<bar>diffsize\<bar>) + 2 * DSIZE) \<and>
            \<not> to_int nextsize \<ge> wrap_int \<bar>diffsize\<bar>))"

section \<open>The consistency checker's condition on free blocks\<close>

text \<open>
  \<open>checkblock\<close> reports a contiguous free block that escaped coalescing for a block that
  is marked free while the header of its predecessor or of its successor is not marked
  allocated.
\<close>

definition escaped_coalescing :: "heap_state \<Rightarrow> uintptr \<Rightarrow> bool" where
  "escaped_coalescing s bp \<longleftrightarrow>
     to_int (GET_ALLOC s (HDRP bp)) = 0 \<and>
     (to_int (GET_ALLOC s (HDRP (PREV_BLKP s bp))) \<noteq> 1 \<or>
      to_int (GET_ALLOC s (HDRP (NEXT_BLKP s bp))) \<noteq> 1)"

section \<open>Concrete runs\<close>

text \<open>
  For the runs below the memory is given by the list of the words written so far, every
  other word reading 0. The region provider starts at address 65536 and ends 20 MiB
  later.
\<close>

definition mem_of :: "(uintptr \<times> uintptr) list \<Rightarrow> uintptr \<Rightarrow> uintptr" where
  "mem_of al a = (case map_of al a of Some v \<Rightarrow> v | None \<Rightarrow> 0)"

definition fresh_heap :: heap_state where
  "fresh_heap =
     \<lparr>mem = mem_of [], mem_brk = 65536, mem_max_addr = 21037056, heap_listp = 0, bin_list = 0\<rparr>"

text \<open>The heap after \<open>mm_init\<close>.\<close>

definition heap_init :: heap_state where
  "heap_init =
     \<lparr>mem = mem_of
         [(65536, NULL), (65544, NULL), (65552, NULL), (65560, NULL), (65568, NULL),
          (65576, 65688), (65584, NULL), (65592, NULL), (65600, NULL), (65608, NULL),
          (65616, NULL), (65624, NULL), (65632, NULL), (65640, NULL), (65648, NULL),
          (65656, NULL), (65664, 17), (65672, 17), (65680, 4112), (69784, 4112),
          (69792, 1), (65696, NULL), (65688, NULL)],
        mem_brk = 69800, mem_max_addr = 21037056, heap_listp = 65688, bin_list = 65536\<rparr>"

text \<open>The heap after \<open>mm_init; p = mm_malloc(40)\<close>.\<close>

definition heapA2 :: heap_state where
  "heapA2 =
     \<lparr>mem = mem_of
         [(65536, NULL), (65544, NULL), (65552, NULL), (65560, NULL), (65568, NULL),
          (65576, 65744), (65584, NULL), (65592, NULL), (65600, NULL), (65608, NULL),
          (65616, NULL), (65624, NULL), (65632, NULL), (65640, NULL), (65648, NULL),
          (65656, NULL), (65664, 17), (65672, 17), (65680, 57), (69784, 4056), (69792, 1),
          (65696, NULL), (65688, NULL), (65728, 57), (65736, 4056), (65752, NULL),
          (65744, NULL)],
        mem_brk = 69800, mem_max_addr = 21037056, heap_listp = 65688, bin_list = 65536\<rparr>"

text \<open>The heap after \<open>mm_init; p = mm_malloc(40); mm_realloc(p, 1)\<close>.\<close>

definition heapA3 :: heap_state where
  "heapA3 =
     \<lparr>mem = mem_of
         [(65536, NULL), (65544, NULL), (65552, NULL), (65560, NULL), (65568, NULL),
          (65576, 65712), (65584, NULL), (65592, NULL), (65600, NULL), (65608, NULL),
          (65616, NULL), (65624, NULL), (65632, NULL), (65640, NULL), (65648, NULL),
          (65656, NULL), (65664, 17), (65672, 17), (65680, 25), (69784, 4088), (69792, 1),
          (65696, 25), (65688, NULL), (65728, 32), (65736, 4056), (65752, NULL),
          (65744, NULL), (65704, 4088), (65720, NULL), (65712, NULL)],
        mem_brk = 69800, mem_max_addr = 21037056, heap_listp = 65688, bin_list = 65536\<rparr>"

text \<open>The heap after \<open>mm_init; p = mm_malloc(200)\<close>.\<close>

definition heapB2 :: heap_state where
  "heapB2 =
     \<lparr>mem = mem_of
         [(65536, NULL), (65544, NULL), (65552, NULL), (65560, NULL), (65568, NULL),
          (65576, 65904), (65584, NULL), (65592, NULL), (65600, NULL), (65608, NULL),
          (65616, NULL), (65624, NULL), (65632, NULL), (65640, NULL), (65648, NULL),
          (65656, NULL), (65664, 17), (65672, 17), (65680, 217), (69784, 3896), (69792, 1),
          (65696, NULL), (65688, NULL), (65888, 217), (65896, 3896), (65912, NULL),
          (65904, NULL)],
        mem_brk = 69800, mem_max_addr = 21037056, heap_listp = 65688, bin_list = 65536\<rparr>"

text \<open>The heap then \<open>mm_malloc(8)\<close>.\<close>

definition heapB3 :: heap_state where
  "heapB3 =
     \<lparr>mem = mem_of
         [(65536, NULL), (65544, NULL), (65552, NULL), (65560, NULL), (65568, NULL),
          (65576, 65936), (65584, NULL), (65592, NULL), (65600, NULL), (65608, NULL),
          (65616, NULL), (65624, NULL), (65632, NULL), (65640, NULL), (65648, NULL),
          (65656, NULL), (65664, 17), (65672, 17), (65680, 217), (69784, 3864), (69792, 1),
          (65696, NULL), (65688, NULL), (65888, 217), (65896, 33), (65912, NULL),
          (65904, NULL), (65920, 33), (65928, 3864), (65944, NULL), (65936, NULL)],
        mem_brk = 69800, mem_max_addr = 21037056, heap_listp = 65688, bin_list = 65536\<rparr>"

text \<open>The heap then \<open>mm_realloc(p, 1)\<close>.\<close>

definition heapB4 :: heap_state where
  "heapB4 =
     \<lparr>mem = mem_of
         [(65536, NULL), (65544, 65712), (65552, NULL), (65560, NULL), (65568, NULL),
          (65576, 65936), (65584, NULL), (65592, NULL), (65600, NULL), (65608, NULL),
          (65616, NULL), (65624, NULL), (65632, NULL), (65640, NULL), (65648, NULL),
          (65656, NULL), (65664, 17), (65672, 17), (65680, 25), (69784, 3864), (69792, 1),
          (65696, 25), (65688, NULL), (65888, 192), (65896, 33), (65912, NULL),
          (65904, NULL), (65920, 33), (65928, 3864), (65944, NULL), (65936, NULL),
          (65704, 192), (65720, NULL), (65712, NULL)],
        mem_brk = 69800, mem_max_addr = 21037056, heap_listp = 65688, bin_list = 65536\<rparr>"

text \<open>The heap then \<open>q = mm_malloc(176)\<close>.\<close>

definition heapB5 :: heap_state where
  "heapB5 =
     \<lparr>mem = mem_of
         [(65536, NULL), (65544, NULL), (65552, NULL), (65560, NULL), (65568, NULL),
          (65576, 65936), (65584, NULL), (65592, NULL), (65600, NULL), (65608, NULL),
          (65616, NULL), (65624, NULL), (65632, NULL), (65640, NULL), (65648, NULL),
          (65656, NULL), (65664, 17), (65672, 17), (65680, 25), (69784, 3864), (69792, 1),
          (65696, 25), (65688, NULL), (65888, 193), (65896, 33), (65912, NULL),
          (65904, NULL), (65920, 33), (65928, 3864), (65944, NULL), (65936, NULL),
          (65704, 193), (65720, NULL), (65712, NULL)],
        mem_brk = 69800, mem_max_addr = 21037056, heap_listp = 65688, bin_list = 65536\<rparr>"

text \<open>The heap then \<open>mm_free(p)\<close>.\<close>

definition heapB6 :: heap_state where
  "heapB6 =
     \<lparr>mem = mem_of
         [(65536, 65688), (65544, NULL), (65552, NULL), (65560, NULL), (65568, NULL),
          (65576, 65936), (65584, NULL), (65592, NULL), (65600, NULL), (65608, NULL),
          (65616, NULL), (65624, NULL), (65632, NULL), (65640, NULL), (65648, NULL),
          (65656, NULL), (65664, 17), (65672, 17), (65680, 24), (69784, 3864), (69792, 1),
          (65696, NULL), (65688, NULL), (65888, 193), (65896, 33), (65912, NULL),
          (65904, NULL), (65920, 33), (65928, 3864), (65944, NULL), (65936, NULL),
          (65704, 193), (65720, NULL), (65712, NULL)],
        mem_brk = 69800, mem_max_addr = 21037056, heap_listp = 65688, bin_list = 65536\<rparr>"

text \<open>The heap then \<open>mm_free(q)\<close>.\<close>

definition heapB7 :: heap_state where
  "heapB7 =
     \<lparr>mem = mem_of
         [(65536, 65688), (65544, NULL), (65552, 65712), (65560, NULL), (65568, NULL),
          (65576, 65936), (65584, NULL), (65592, NULL), (65600, NULL), (65608, NULL),
          (65616, NULL), (65624, NULL), (65632, NULL), (65640, NULL), (65648, NULL),
          (65656, NULL), (65664, 17), (65672, 17), (65680, 24), (69784, 3864), (69792, 1),
          (65696, NULL), (65688, NULL), (65888, 384), (65896, 33), (65912, NULL),
          (65904, NULL), (65920, 33), (65928, 3864), (65944, NULL), (65936, NULL),
          (65704, 384), (65720, NULL), (65712, NULL)],
        mem_brk = 69800, mem_max_addr = 21037056, heap_listp = 65688, bin_list = 65536\<rparr>"

text \<open>The heap after \<open>mm_init; mm_malloc(4200)\<close>.\<close>

definition heapC2 :: heap_state where
  "heapC2 =
     \<lparr>mem = mem_of
         [(65536, NULL), (65544, NULL), (65552, NULL), (65560, NULL), (65568, NULL),
          (65576, 69904), (65584, NULL), (65592, NULL), (65600, NULL), (65608, NULL),
          (65616, NULL), (65624, NULL), (65632, NULL), (65640, NULL), (65648, NULL),
          (65656, NULL), (65664, 17), (65672, 17), (65680, 4217), (69784, 4112),
          (69792, 4224), (65696, NULL), (65688, NULL), (74008, 4120), (74016, 1),
          (69808, NULL), (69800, NULL), (69888, 4217), (69896, 4120), (69912, NULL),
          (69904, NULL)],
        mem_brk = 74024, mem_max_addr = 21037056, heap_listp = 65688, bin_list = 65536\<rparr>"

text \<open>The heap \<open>heapA2\<close> when the region provider has nothing left to give.\<close>

definition heapA2_full :: heap_state where
  "heapA2_full = heapA2\<lparr>mem_max_addr := 69800\<rparr>"

text \<open>The heap after \<open>mm_init; mm_malloc(18446744073709551615)\<close>.\<close>

definition heapE2 :: heap_state where
  "heapE2 =
     \<lparr>mem = mem_of
         [(65536, NULL), (65544, NULL), (65552, NULL), (65560, NULL), (65568, NULL),
          (65576, 65704), (65584, NULL), (65592, NULL), (65600, NULL), (65608, NULL),
          (65616, NULL), (65624, NULL), (65632, NULL), (65640, NULL), (65648, NULL),
          (65656, NULL), (65664, 17), (65672, 17), (65680, 17), (69784, 4096),
          (69792, 1), (65696, 4096), (65688, 17), (65712, NULL), (65704, NULL)],
        mem_brk = 69800, mem_max_addr = 21037056, heap_listp = 65688, bin_list = 65536\<rparr>"

text \<open>A region that can grow to 32 GiB.\<close>

definition fresh_big :: heap_state where
  "fresh_big =
     \<lparr>mem = mem_of [], mem_brk = 65536, mem_max_addr = 34359738368, heap_listp = 0,
        bin_list = 0\<rparr>"

text \<open>The heap after \<open>mm_init\<close> on that region.\<close>

definition heapG1 :: heap_state where
  "heapG1 =
     \<lparr>mem = mem_of
         [(65536, NULL), (65544, NULL), (65552, NULL), (65560, NULL), (65568, NULL),
          (65576, 65688), (65584, NULL), (65592, NULL), (65600, NULL), (65608, NULL),
          (65616, NULL), (65624, NULL), (65632, NULL), (65640, NULL), (65648, NULL),
          (65656, NULL), (65664, 17), (65672, 17), (65680, 4112), (69784, 4112), (69792, 1),
          (65696, NULL), (65688, NULL)],
        mem_brk = 69800, mem_max_addr = 34359738368, heap_listp = 65688, bin_list = 65536\<rparr>"

text \<open>The heap after \<open>mm_init; p = mm_malloc(8589942768)\<close> on that region.\<close>

definition heapG2 :: heap_state where
  "heapG2 =
     \<lparr>mem = mem_of
         [(65536, NULL), (65544, NULL), (65552, NULL), (65560, NULL), (65568, NULL),
          (65576, 8590008472), (65584, NULL), (65592, NULL), (65600, NULL), (65608, NULL),
          (65616, NULL), (65624, NULL), (65632, NULL), (65640, NULL), (65648, NULL),
          (65656, NULL), (65664, 17), (65672, 17), (65680, 8589942785), (69784, 4112),
          (69792, 8589942784), (65696, NULL), (65688, NULL), (8590012568, 4112),
          (8590012576, 1), (69808, NULL), (69800, NULL), (8590008456, 8589942785),
          (8590008464, 4112), (8590008480, NULL), (8590008472, NULL)],
        mem_brk = 8590012584, mem_max_addr = 34359738368, heap_listp = 65688, bin_list = 65536\<rparr>"

text \<open>The heap after \<open>mm_init; p = mm_malloc(8589942768); mm_free(p)\<close> on that region.\<close>

definition heapG3 :: heap_state where
  "heapG3 =
     \<lparr>mem = mem_of
         [(65536, NULL), (65544, NULL), (65552, NULL), (65560, NULL), (65568, NULL),
          (65576, NULL), (65584, NULL), (65592, 65688), (65600, NULL), (65608, NULL),
          (65616, NULL), (65624, NULL), (65632, NULL), (65640, NULL), (65648, NULL),
          (65656, NULL), (65664, 17), (65672, 17), (65680, 8589946896), (69784, 4112),
          (69792, 8589942784), (65696, NULL), (65688, NULL), (8590012568, 8589946896),
          (8590012576, 1), (69808, NULL), (69800, NULL), (8590008456, 8589942784),
          (8590008464, 4112), (8590008480, NULL), (8590008472, NULL)],
        mem_brk = 8590012584, mem_max_addr = 34359738368, heap_listp = 65688, bin_list = 65536\<rparr>"

section \<open>The part of the state outside the memory\<close>

definition region_of :: "heap_state \<Rightarrow> uintptr \<times> uintptr \<times> uintptr \<times> uintptr" where
  "region_of s = (mem_brk s, mem_max_addr s, heap_listp s, bin_list s)"

section \<open>The bins as lists of blocks\<close>

text \<open>
  \<open>bin_chain s p xs\<close>: following the \<open>next\<close> links from \<open>p\<close> visits the blocks
  \<open>xs\<close> in this order and then reaches \<open>NULL\<close>. \<open>bins_are s bins\<close>: the fifteen
  lists of \<open>bins\<close> are the chains that start at the fifteen heads of \<open>bin_list\<close>.
  \<open>first_fit_of s asize xs\<close> is the first block of the list \<open>xs\<close> whose size is at
  least \<open>asize\<close>, and \<open>NULL\<close> if there is none. \<open>sized_bins s bins\<close>: every listed
  block is smaller than \<open>2 ^ 31\<close> bytes and is in the bin of its size.
\<close>

primrec bin_chain :: "heap_state \<Rightarrow> uintptr \<Rightarrow> uintptr list \<Rightarrow> bool" where
  "bin_chain s p [] \<longleftrightarrow> p = NULL"
| "bin_chain s p (x # xs) \<longleftrightarrow> p = x \<and> x \<noteq> NULL \<and> bin_chain s (GET s (next_field x)) xs"

definition bins_are :: "heap_state \<Rightarrow> uintptr list list \<Rightarrow> bool" where
  "bins_are s bins \<longleftrightarrow>
     list_all2 (\<lambda>i xs. bin_chain s (GET s (bin_slot s i)) xs) [0..<BIN_NUM] bins"

definition first_fit_of :: "heap_state \<Rightarrow> uintptr \<Rightarrow> uintptr list \<Rightarrow> uintptr" where
  "first_fit_of s asize xs =
     (case List.find (\<lambda>x. asize \<le> GET_SIZE s (HDRP x)) xs of Some x \<Rightarrow> x | None \<Rightarrow> NULL)"

definition sized_bins :: "heap_state \<Rightarrow> uintptr list list \<Rightarrow> bool" where
  "sized_bins s bins \<longleftrightarrow>
     list_all2 (\<lambda>i xs. \<forall>x\<in>set xs. unat (GET_SIZE s (HDRP x)) < 2 ^ 31 \<and>
                  get_list_index (to_int (GET_SIZE s (HDRP x))) = Inr i) [0..<BIN_NUM] bins"

text \<open>The bins of the heaps \<open>heapB4\<close>, \<open>heap_init\<close> and \<open>heapG3\<close>.\<close>

definition binsB4 :: "uintptr list list" where
  "binsB4 = [[], [65712], [], [], [], [65936], [], [], [], [], [], [], [], [], []]"

definition bins_init :: "uintptr list list" where
  "bins_init = [[], [], [], [], [], [65688], [], [], [], [], [], [], [], [], []]"

definition binsG3 :: "uintptr list list" where
  "binsG3 = [[], [], [], [], [], [], [], [65688], [], [], [], [], [], [], []]"

section \<open>The adjusted size as the specification words it\<close>

text \<open>
  The specification's adjusted size for a payload request of \<open>s\<close> bytes, over the
  natural numbers and with \<open>W = 8\<close>: \<open>4W\<close> if \<open>s \<le> 2W\<close>, otherwise
  \<open>2W + round_up(s, W)\<close>; then \<open>2W + s + 128\<close> if \<open>s\<close> is a non-zero multiple of
  128 other than 128, and \<open>W + CHUNKSIZE\<close> if \<open>s = 4092\<close>.
\<close>

definition round_up :: "nat \<Rightarrow> nat \<Rightarrow> nat" where
  "round_up n m = ((n + m - 1) div m) * m"

definition spec_asize :: "nat \<Rightarrow> nat" where
  "spec_asize s =
     (let W = 8;
          asize = (if s \<le> 2 * W then 4 * W else 2 * W + round_up s W);
          asize = (if s \<noteq> 0 \<and> s mod 128 = 0 \<and> s \<noteq> 128 then 2 * W + s + 128 else asize);
          asize = (if s = 4092 then W + 4104 else asize)
      in asize)"

section \<open>Basic facts\<close>

lemmas mm_consts = ASIZE_def WSIZE_def DSIZE_def TSIZE_def CHUNKSIZE_def BIN_NUM_def BOUND_def

lemma bindE_Inl: "bindE (Inl e) f = Inl e"
  by (simp add: bindE_def)

lemma bindE_Inr: "bindE (Inr x) f = f x"
  by (simp add: bindE_def)

lemma bindE_weak_cong: "r = r' \<Longrightarrow> bindE r f = bindE r' f"
  by simp

lemma ucast_64_32: "(ucast (x :: uintptr) :: 32 word) = word_of_int (uint x)"
  by simp

section \<open>The size classes\<close>

lemma glil_stop:
  "list < 15 \<Longrightarrow> count \<le> 128 \<or> list = 14 \<Longrightarrow> get_list_index_loop count list = list"
  by (subst get_list_index_loop.simps) (simp add: mm_consts)

lemma glil_step:
  "list < 14 \<Longrightarrow> 128 < count \<Longrightarrow>
   get_list_index_loop count list = get_list_index_loop (drop_bit 1 count) (Suc list)"
  by (subst get_list_index_loop.simps) (simp add: mm_consts)

lemma glil_range: "list \<le> 14 \<Longrightarrow> get_list_index_loop count list \<le> 14"
proof (induction count list rule: get_list_index_loop.induct)
  case (1 count list)
  show ?case
  proof (cases "count \<le> 128 \<or> list = 14")
    case True
    with 1 show ?thesis by (simp add: glil_stop)
  next
    case False
    with 1 have "get_list_index_loop (drop_bit 1 count) (list + 1) \<le> 14"
      by (simp add: mm_consts)
    with False 1 show ?thesis by (simp add: glil_step)
  qed
qed

lemma glil_lower: "list \<le> 14 \<Longrightarrow> list \<le> get_list_index_loop count list"
proof (induction count list rule: get_list_index_loop.induct)
  case (1 count list)
  show ?case
  proof (cases "count \<le> 128 \<or> list = 14")
    case True
    with 1 show ?thesis by (simp add: glil_stop)
  next
    case False
    with 1 have "list + 1 \<le> get_list_index_loop (drop_bit 1 count) (list + 1)"
      by (simp add: mm_consts)
    with False 1 show ?thesis by (simp add: glil_step)
  qed
qed

lemma glil_mono:
  "list \<le> 14 \<Longrightarrow> c1 \<le> c2 \<Longrightarrow> get_list_index_loop c1 list \<le> get_list_index_loop c2 list"
proof (induction c1 list arbitrary: c2 rule: get_list_index_loop.induct)
  case (1 count list)
  show ?case
  proof (cases "count \<le> 128 \<or> list = 14")
    case True
    with 1 show ?thesis by (simp add: glil_stop glil_lower)
  next
    case False
    have half: "drop_bit 1 count \<le> drop_bit 1 c2"
      using 1(3) by (simp add: drop_bit_eq_div zdiv_mono1)
    from False 1 have "get_list_index_loop (drop_bit 1 count) (list + 1)
        \<le> get_list_index_loop (drop_bit 1 c2) (list + 1)"
      using half by (simp add: mm_consts)
    with False 1 show ?thesis by (simp add: glil_step)
  qed
qed

lemma glil_shift:
  "list \<le> 13 \<Longrightarrow>
   get_list_index_loop count (Suc list) = min 14 (Suc (get_list_index_loop count list))"
proof (induction count list rule: get_list_index_loop.induct)
  case (1 count list)
  show ?case
  proof (cases "count \<le> 128")
    case True
    with 1 show ?thesis by (simp add: glil_stop)
  next
    case False
    show ?thesis
    proof (cases "list = 13")
      case True
      with False show ?thesis by (simp add: glil_stop glil_step)
    next
      case F2: False
      with False 1 have "get_list_index_loop (drop_bit 1 count) (Suc (list + 1))
          = min 14 (Suc (get_list_index_loop (drop_bit 1 count) (list + 1)))"
        by (simp add: mm_consts)
      with False F2 1(2) show ?thesis by (simp add: glil_step)
    qed
  qed
qed

lemma glil_rec:
  "128 < sz \<Longrightarrow>
   get_list_index_loop sz 0 = min 14 (Suc (get_list_index_loop (drop_bit 1 sz) 0))"
  by (simp add: glil_step glil_shift)

lemma glil_small:
  "list \<le> 14 \<Longrightarrow> count < 129 * 2 ^ k \<Longrightarrow> get_list_index_loop count list \<le> list + k"
proof (induction count list arbitrary: k rule: get_list_index_loop.induct)
  case (1 count list)
  show ?case
  proof (cases "count \<le> 128 \<or> list = 14")
    case True
    with 1(2) show ?thesis by (simp add: glil_stop)
  next
    case False
    then have l: "list < 14" and big: "128 < count" using 1(2) by simp_all
    have "k \<noteq> 0" using big 1(3) by (cases k) auto
    then obtain j where k: "k = Suc j" by (cases k) auto
    then have "count < 2 * (129 * 2 ^ j)" using 1(3) by simp
    then have "count div 2 < 129 * 2 ^ j" by linarith
    then have "drop_bit 1 count < 129 * 2 ^ j" by (simp add: drop_bit_eq_div)
    with 1(1) l big have "get_list_index_loop (drop_bit 1 count) (list + 1) \<le> list + 1 + j"
      by (simp add: mm_consts)
    with l big k show ?thesis by (simp add: glil_step)
  qed
qed

lemma glil_large:
  "list \<le> 14 \<Longrightarrow> 129 * 2 ^ k \<le> count \<Longrightarrow>
   min 14 (list + Suc k) \<le> get_list_index_loop count list"
proof (induction count list arbitrary: k rule: get_list_index_loop.induct)
  case (1 count list)
  show ?case
  proof (cases "list = 14")
    case True
    then show ?thesis by (simp add: glil_stop)
  next
    case False
    then have l: "list < 14" using 1(2) by simp
    have "(1::int) \<le> 2 ^ k" by simp
    then have "(129::int) \<le> 129 * 2 ^ k" by linarith
    then have big: "128 < count" using 1(3) by linarith
    show ?thesis
    proof (cases k)
      case 0
      have "list + 1 \<le> get_list_index_loop (drop_bit 1 count) (list + 1)"
        using l by (intro glil_lower) simp
      with l big 0 show ?thesis by (simp add: glil_step)
    next
      case (Suc j)
      then have "2 * (129 * 2 ^ j) \<le> count" using 1(3) by simp
      then have "129 * 2 ^ j \<le> count div 2" by linarith
      then have "129 * 2 ^ j \<le> drop_bit 1 count" by (simp add: drop_bit_eq_div)
      with 1(1) l big
      have "min 14 (list + 1 + Suc j) \<le> get_list_index_loop (drop_bit 1 count) (list + 1)"
        by (simp add: mm_consts)
      with l big Suc show ?thesis by (simp add: glil_step)
    qed
  qed
qed

lemma glil_bin:
  assumes "1 \<le> k" "k \<le> 13" "129 * 2 ^ (k - 1) \<le> sz" "sz < 129 * 2 ^ k"
  shows "get_list_index_loop sz 0 = k"
proof -
  have "get_list_index_loop sz 0 \<le> 0 + k"
    using assms(4) by (intro glil_small) simp_all
  moreover have "min 14 (0 + Suc (k - 1)) \<le> get_list_index_loop sz 0"
    using assms(3) by (intro glil_large) simp_all
  ultimately show ?thesis using assms(1,2) by simp
qed

lemma glil_last: "1056768 \<le> sz \<Longrightarrow> get_list_index_loop sz 0 = 14"
proof -
  assume "1056768 \<le> sz"
  then have "129 * 2 ^ 13 \<le> sz" by simp
  then have "min 14 (0 + Suc 13) \<le> get_list_index_loop sz 0"
    by (intro glil_large) simp_all
  moreover have "get_list_index_loop sz 0 \<le> 14" by (rule glil_range) simp
  ultimately show ?thesis by simp
qed

lemma get_list_index_nonneg: "0 \<le> sz \<Longrightarrow> get_list_index sz = Inr (get_list_index_loop sz 0)"
  by (simp add: get_list_index_def)

text \<open>
  Claim C7, as amended. A size between 0 and 128 is in bin 0. For a size above 128 the
  bin is one more than the bin of the halved size, capped at 14: it is exactly one more
  for every size below 2113536, bin \<open>k\<close> (from 1 to 13) holds the sizes from
  \<open>129 * 2 ^ (k - 1)\<close> to \<open>129 * 2 ^ k - 1\<close>, and every size from 1056768 on is in
  the last bin, 14.
\<close>

theorem get_list_index_bins:
  assumes "0 \<le> sz"
  shows "(sz \<le> 128 \<longrightarrow> get_list_index sz = Inr 0) \<and>
         (128 < sz \<longrightarrow> (\<exists>k. get_list_index (drop_bit 1 sz) = Inr k \<and>
                              get_list_index sz = Inr (min 14 (k + 1)))) \<and>
         (128 < sz \<and> sz < 2113536 \<longrightarrow>
            (\<exists>k. get_list_index (drop_bit 1 sz) = Inr k \<and> get_list_index sz = Inr (k + 1))) \<and>
         (\<forall>k. 1 \<le> k \<and> k \<le> 13 \<and> 129 * 2 ^ (k - 1) \<le> sz \<and> sz < 129 * 2 ^ k \<longrightarrow>
            get_list_index sz = Inr k) \<and>
         (1056768 \<le> sz \<longrightarrow> get_list_index sz = Inr 14)"
proof -
  have half: "0 \<le> drop_bit 1 sz" using assms by simp
  have a: "sz \<le> 128 \<Longrightarrow> get_list_index sz = Inr 0"
    using assms by (simp add: get_list_index_nonneg glil_stop)
  have b: "128 < sz \<Longrightarrow> get_list_index sz
      = Inr (min 14 (get_list_index_loop (drop_bit 1 sz) 0 + 1))"
    using assms by (simp add: get_list_index_nonneg glil_rec)
  have c: "get_list_index_loop (drop_bit 1 sz) 0 + 1 \<le> 14" if "sz < 2113536"
  proof -
    from that have "sz div 2 < 129 * 2 ^ 13" by simp
    then have "drop_bit 1 sz < 129 * 2 ^ 13" by (simp add: drop_bit_eq_div)
    then have "get_list_index_loop (drop_bit 1 sz) 0 \<le> 0 + 13"
      by (intro glil_small) simp_all
    then show ?thesis by simp
  qed
  have d: "\<And>k. 1 \<le> k \<Longrightarrow> k \<le> 13 \<Longrightarrow> 129 * 2 ^ (k - 1) \<le> sz \<Longrightarrow> sz < 129 * 2 ^ k
      \<Longrightarrow> get_list_index sz = Inr k"
    using assms by (simp add: get_list_index_nonneg glil_bin)
  have e: "1056768 \<le> sz \<Longrightarrow> get_list_index sz = Inr 14"
    using assms by (simp add: get_list_index_nonneg glil_last)
  from a b c d e half show ?thesis
    by (auto simp: get_list_index_nonneg)
qed

theorem get_list_index_bins_witness:
  "get_list_index 100 = Inr 0 \<and> get_list_index 300 = Inr 2 \<and>
   get_list_index 150 = Inr 1 \<and> get_list_index 2000000 = Inr 14"
proof -
  have "get_list_index 100 = Inr 0"
    using get_list_index_bins [of 100] by simp
  moreover have "get_list_index 150 = Inr 1"
    using get_list_index_bins [of 150] by (simp add: nat_le_iff)
  ultimately show ?thesis
    using get_list_index_bins [of 300] get_list_index_bins [of 2000000] by auto
qed

text \<open>
  Claim C7 as stated fails: 2113536 is above 128, but it and its half 1056768 are both
  in bin 14, so its bin is not one more than the bin of its half.
\<close>

theorem get_list_index_halving_counterexample:
  "(128::int) < 2113536 \<and> get_list_index 2113536 = Inr 14 \<and>
   get_list_index (drop_bit 1 2113536) = Inr 14"
  by (simp add: get_list_index_nonneg glil_last)

section \<open>The adjusted block size\<close>

lemma round_up_8: "round_up n 8 = (if n mod 8 = 0 then n else (n div 8 + 1) * 8)"
proof -
  define q r where "q = n div 8" and "r = n mod 8"
  have n: "n = q * 8 + r" and r: "r < 8" unfolding q_def r_def by simp_all
  have a: "(n + 7) div 8 = q" if "r = 0"
    using that n by (intro div_nat_eqI) simp_all
  have b: "(n + 7) div 8 = q + 1" if "r \<noteq> 0"
    using that n r by (intro div_nat_eqI) simp_all
  have c: "round_up n 8 = (n + 7) div 8 * 8" by (simp add: round_up_def)
  show ?thesis
  proof (cases "r = 0")
    case True
    with a n have "(n + 7) div 8 * 8 = n" by simp
    with True show ?thesis unfolding c r_def by simp
  next
    case False
    with b have "(n + 7) div 8 * 8 = (q + 1) * 8" by simp
    with False show ?thesis unfolding c r_def q_def by simp
  qed
qed

lemma malloc_asize_of_nat:
  assumes nz: "sz \<noteq> 0"
  shows "malloc_asize sz = of_nat (spec_asize (unat sz))"
proof -
  define n where "n = unat sz"
  have sz: "sz = of_nat n" unfolding n_def by simp
  have n: "n \<noteq> 0" using nz unfolding n_def by (simp add: unat_eq_0)
  have le: "sz \<le> 16 \<longleftrightarrow> n \<le> 16" unfolding n_def by (simp add: word_le_nat_alt)
  have m8: "sz mod 8 = 0 \<longleftrightarrow> n mod 8 = 0"
    unfolding n_def by (simp add: word_unat_eq_iff unat_mod)
  have m128: "sz mod 128 = 0 \<longleftrightarrow> n mod 128 = 0"
    unfolding n_def by (simp add: word_unat_eq_iff unat_mod)
  have e128: "sz = 128 \<longleftrightarrow> n = 128" unfolding n_def by (simp add: word_unat_eq_iff)
  have e4092: "sz = 4092 \<longleftrightarrow> n = 4092" unfolding n_def by (simp add: word_unat_eq_iff)
  have d: "sz div 8 = of_nat (n div 8)" unfolding n_def by (simp add: word_arith_nat_div)
  have base: "(if sz \<le> DSIZE then ASIZE + TSIZE
               else if sz mod WSIZE = 0 then DSIZE + sz
               else DSIZE + ((sz div WSIZE) + 1) * WSIZE)
      = of_nat (if n \<le> 2 * 8 then 4 * 8 else 2 * 8 + round_up n 8)"
    by (simp add: mm_consts le m8 d round_up_8 sz[symmetric])
  have special: "DSIZE + sz + BOUND = of_nat (2 * 8 + n + 128)"
    by (simp add: mm_consts sz[symmetric])
  have chunk: "WSIZE + CHUNKSIZE = (of_nat (8 + 4104) :: uintptr)"
    by (simp add: mm_consts)
  have c128: "(sz mod BOUND = 0 \<and> sz \<noteq> BOUND) \<longleftrightarrow> (n \<noteq> 0 \<and> n mod 128 = 0 \<and> n \<noteq> 128)"
    using n by (simp add: mm_consts m128 e128)
  show ?thesis
    unfolding malloc_asize_def spec_asize_def Let_def n_def[symmetric] base special chunk
      c128 e4092
    by (simp only: if_distrib[of of_nat])
qed

lemma spec_asize_bound: "s < 2 ^ 64 - 152 \<Longrightarrow> spec_asize s < 2 ^ 64"
  unfolding spec_asize_def Let_def round_up_8 by (simp; linarith)

text \<open>
  The adjusted size that \<open>mm_malloc\<close> computes is the specification's formula
  (\<open>4W\<close> if \<open>sz \<le> 2W\<close>, otherwise \<open>2W + round_up(sz, W)\<close>, overridden by
  \<open>2W + sz + 128\<close> for a non-zero multiple of 128 other than 128 and by
  \<open>W + CHUNKSIZE\<close> for 4092) taken modulo \<open>2 ^ 64\<close>, the value being held in a
  \<open>size_t\<close>; for a request below \<open>2 ^ 64 - 152\<close> nothing wraps.
\<close>

lemma malloc_asize_spec:
  assumes "sz \<noteq> 0"
  shows "unat (malloc_asize sz) = spec_asize (unat sz) mod 2 ^ 64 \<and>
         (unat sz < 2 ^ 64 - 152 \<longrightarrow> unat (malloc_asize sz) = spec_asize (unat sz))"
  using assms spec_asize_bound [of "unat sz"]
  by (simp add: malloc_asize_of_nat unat_of_nat)

lemma malloc_asize_examples:
  "unat (malloc_asize 1) = 32 \<and> unat (malloc_asize 100) = 120 \<and>
   unat (malloc_asize 256) = 400 \<and> unat (malloc_asize 128) = 144 \<and>
   unat (malloc_asize 4092) = 4112"
  using malloc_asize_spec [of 1] malloc_asize_spec [of 100] malloc_asize_spec [of 256]
    malloc_asize_spec [of 128] malloc_asize_spec [of 4092]
  by (simp add: spec_asize_def round_up_def)

section \<open>Reallocation with a zero size or a null pointer\<close>

text \<open>
  Claim C8. For every pointer and every size, \<open>mm_realloc(ptr, 0)\<close> is \<open>mm_free(ptr)\<close>
  followed by returning \<open>NULL\<close>, and \<open>mm_realloc(NULL, sz)\<close> is \<open>mm_malloc(sz)\<close>.
\<close>

theorem mm_realloc_degenerate:
  "mm_realloc s ptr 0 = Some (bindE (mm_free s ptr) (\<lambda>s'. Inr (NULL, s'))) \<and>
   mm_realloc s NULL sz = mm_malloc s sz"
  by (simp add: mm_realloc_def mm_malloc_def mm_free_def bindE_Inr)

section \<open>Evaluating the model on a concrete heap\<close>

lemma mem_of_upd: "(mem_of al)(a := v) = mem_of (AList.update a v al)"
  by (auto simp: mem_of_def fun_eq_iff update_conv')

lemma mem_of_Nil: "mem_of [] a = 0"
  by (simp add: mem_of_def)

lemma mem_of_Cons: "mem_of ((k, v) # al) a = (if k = a then v else mem_of al a)"
  by (simp add: mem_of_def)

lemma get_list_index_neg: "sz < 0 \<Longrightarrow> get_list_index sz = Inl AssertionFailed"
  by (simp add: get_list_index_def)

lemma glil_step_add:
  "list < 14 \<Longrightarrow> 128 < count \<Longrightarrow>
   get_list_index_loop count list = get_list_index_loop (drop_bit 1 count) (list + 1)"
  by (simp add: glil_step)

lemma fbl_null: "find_block_list_loop s NULL asize = Some NULL"
  by (subst find_block_list_loop.simps) simp

lemma fbl_hit:
  "bp \<noteq> NULL \<Longrightarrow> asize \<le> to_int (GET_SIZE s (HDRP bp)) \<Longrightarrow>
   find_block_list_loop s bp asize = Some bp"
  by (subst find_block_list_loop.simps) simp

lemma fbl_miss:
  "bp \<noteq> NULL \<Longrightarrow> \<not> asize \<le> to_int (GET_SIZE s (HDRP bp)) \<Longrightarrow>
   find_block_list_loop s bp asize = find_block_list_loop s (GET s (next_field bp)) asize"
  by (subst find_block_list_loop.simps) simp

lemma ffl_stop: "\<not> i < 15 \<Longrightarrow> find_fit_loop s asize i = Some (Inr NULL)"
  by (subst find_fit_loop.simps) (simp add: mm_consts)

lemma ffl_step:
  "i < 15 \<Longrightarrow> find_fit_loop s asize i =
     (case find_block_list s (GET s (bin_slot s i)) (to_int asize) of
        None \<Rightarrow> None
      | Some (Inl e) \<Rightarrow> Some (Inl e)
      | Some (Inr bp) \<Rightarrow> if bp \<noteq> NULL then Some (Inr bp) else find_fit_loop s asize (i + 1))"
  by (subst find_fit_loop.simps) (simp add: mm_consts)

lemmas run_simps = mm_consts PUT_def GET_def GET_SIZE_def GET_ALLOC_def HDRP_def FTRP_def
  NEXT_BLKP_def PREV_BLKP_def next_field_def prev_field_def bin_slot_def mem_sbrk_def
  PACK_def MAX_of_def bindE_Inl bindE_Inr to_int_def wrap_int_def mem_of_upd mem_of_Nil
  mem_of_Cons get_list_index_nonneg get_list_index_neg glil_stop glil_step_add fbl_null
  fbl_hit fbl_miss ffl_stop ffl_step find_block_list_def find_fit_def insert_block_def
  delete_block_def coalesce_def extend_heap_def place_def Let_def malloc_asize_def
  malloc_extendsize_def mm_init_def mm_malloc_def mm_free_def mm_realloc_def upt_rec
  extend_size_def realloc_asize_of_def mm_realloc_fallback_def

lemmas run_congs = bindE_weak_cong let_weak_cong sum.case_cong_weak option.case_cong_weak
  prod.case_cong_weak

lemma run_init: "mm_init fresh_heap = Inr (0, heap_init)"
  by (simp add: fresh_heap_def heap_init_def run_simps cong: run_congs)

lemma runA_malloc: "mm_malloc heap_init 40 = Some (Inr (65688, heapA2))"
  by (simp add: heap_init_def heapA2_def run_simps cong: run_congs)

lemma runA_realloc: "mm_realloc heapA2 65688 1 = Some (Inr (65688, heapA3))"
  by (simp add: heapA2_def heapA3_def run_simps cong: run_congs)

lemma runB_malloc_p: "mm_malloc heap_init 200 = Some (Inr (65688, heapB2))"
  by (simp add: heap_init_def heapB2_def run_simps cong: run_congs)

lemma runB_malloc_8: "mm_malloc heapB2 8 = Some (Inr (65904, heapB3))"
  by (simp add: heapB2_def heapB3_def run_simps cong: run_congs)

lemma runB_realloc: "mm_realloc heapB3 65688 1 = Some (Inr (65688, heapB4))"
  by (simp add: heapB3_def heapB4_def run_simps cong: run_congs)

lemma runB_malloc_q: "mm_malloc heapB4 176 = Some (Inr (65712, heapB5))"
  by (simp add: heapB4_def heapB5_def run_simps cong: run_congs)

lemma runB_free_p: "mm_free heapB5 65688 = Inr heapB6"
  by (simp add: heapB5_def heapB6_def run_simps cong: run_congs)

lemma runB_free_q: "mm_free heapB6 65712 = Inr heapB7"
  by (simp add: heapB6_def heapB7_def run_simps cong: run_congs)

lemma runC_malloc: "mm_malloc heap_init 4200 = Some (Inr (65688, heapC2))"
  by (simp add: heap_init_def heapC2_def run_simps cong: run_congs)

lemma runG_init: "mm_init fresh_big = Inr (0, heapG1)"
  by (simp add: fresh_big_def heapG1_def run_simps cong: run_congs)

lemma runG_malloc: "mm_malloc heapG1 8589942768 = Some (Inr (65688, heapG2))"
  by (simp add: heapG1_def heapG2_def run_simps cong: run_congs)

lemma runG_free: "mm_free heapG2 65688 = Inr heapG3"
  by (simp add: heapG2_def heapG3_def run_simps cong: run_congs)

lemma wrapped_numerals:
  "(18446744073709617320 :: uintptr) = 65704" "(18446744073709551633 :: uintptr) = 17"
  "(- 18446744073709547520 :: uintptr) = 4096" "(18446744073709617312 :: uintptr) = 65696"
  "(18446744073709617304 :: uintptr) = 65688" "(18446744073709617328 :: uintptr) = 65712"
  by simp_all

lemma runE_malloc: "mm_malloc heap_init 18446744073709551615 = Some (Inr (65688, heapE2))"
  by (simp add: heap_init_def heapE2_def run_simps wrapped_numerals cong: run_congs)

section \<open>A request whose adjusted size wraps around\<close>

text \<open>
  Claim C2 fails on the code. For the request \<open>2 ^ 64 - 1\<close> the specification's
  adjusted size is \<open>2W + round_up(2 ^ 64 - 1, W) = 2 ^ 64 + 16\<close>; \<open>mm_malloc\<close>
  computes it in a \<open>size_t\<close>, where \<open>DSIZE + ((size / WSIZE) + 1) * WSIZE\<close> wraps
  around to 16. After \<open>mm_init\<close>, \<open>mm_malloc(18446744073709551615)\<close> therefore
  does not return \<open>NULL\<close>: it splits a block of 16 bytes off the free block and returns
  it, a block whose footer is the word at the returned address and which has no payload at
  all, where \<open>mm_malloc\<close> is to return a block with at least \<open>size\<close> bytes of
  payload or \<open>NULL\<close>.
\<close>

theorem malloc_asize_wraps:
  "mm_init fresh_heap = Inr (0, heap_init) \<and>
   malloc_asize 18446744073709551615 = 16 \<and>
   spec_asize (unat (18446744073709551615 :: uintptr)) = 18446744073709551632 \<and>
   unat (malloc_asize 18446744073709551615) \<noteq> spec_asize (unat (18446744073709551615 :: uintptr)) \<and>
   mm_malloc heap_init 18446744073709551615 = Some (Inr (65688, heapE2)) \<and>
   GET heapE2 (HDRP 65688) = PACK 16 1 \<and>
   GET_SIZE heapE2 (HDRP 65688) = 16 \<and>
   FTRP heapE2 65688 = 65688"
proof -
  have a: "malloc_asize 18446744073709551615 = 16"
    by (simp add: run_simps)
  have b: "spec_asize (unat (18446744073709551615 :: uintptr)) = 18446744073709551632"
    by (simp add: spec_asize_def round_up_def)
  have "GET heapE2 (HDRP 65688) = PACK 16 1" "GET_SIZE heapE2 (HDRP 65688) = 16"
    "FTRP heapE2 65688 = 65688"
    by (simp_all add: heapE2_def run_simps)
  then show ?thesis
    using run_init runE_malloc a b by simp
qed

section \<open>Blocks below the minimum size, and free neighbours\<close>

text \<open>
  Claim C3 fails on the code. After \<open>mm_init\<close> and \<open>p = mm_malloc(40)\<close> the block
  of \<open>p\<close> has 56 bytes; \<open>mm_realloc(p, 1)\<close> then takes its in-place shrink path and
  stamps header and footer of \<open>p\<close> with the size 24, three words, below the minimum of
  four words (\<open>4 * WSIZE = 32\<close>) that \<open>mm_malloc\<close> keeps.
\<close>

theorem realloc_shrink_below_minimum:
  "mm_init fresh_heap = Inr (0, heap_init) \<and>
   mm_malloc heap_init 40 = Some (Inr (65688, heapA2)) \<and>
   GET heapA2 (HDRP 65688) = PACK 56 1 \<and>
   mm_realloc heapA2 65688 1 = Some (Inr (65688, heapA3)) \<and>
   GET heapA3 (HDRP 65688) = PACK 24 1 \<and>
   GET heapA3 (FTRP heapA3 65688) = PACK 24 1 \<and>
   GET_SIZE heapA3 (HDRP 65688) = 24 \<and>
   GET_SIZE heapA3 (HDRP 65688) < 4 * WSIZE"
proof -
  have "GET heapA2 (HDRP 65688) = PACK 56 1"
    by (simp add: heapA2_def run_simps)
  moreover have "GET heapA3 (HDRP 65688) = PACK 24 1"
    "GET heapA3 (FTRP heapA3 65688) = PACK 24 1"
    "GET_SIZE heapA3 (HDRP 65688) = 24"
    by (simp_all add: heapA3_def run_simps)
  moreover have "(24::uintptr) < 4 * WSIZE"
    by (simp add: mm_consts)
  ultimately show ?thesis
    using run_init runA_malloc runA_realloc by simp
qed

text \<open>
  Claim C1 fails on the code, through the same defect. The run
  \<open>mm_init; p = mm_malloc(200); mm_malloc(8); mm_realloc(p, 1); q = mm_malloc(176);
  mm_free(p); mm_free(q)\<close> leaves the three-word block \<open>p\<close> free with its footer
  overwritten by its own \<open>prev\<close> link, so that \<open>mm_free(q)\<close> does not find it: when
  \<open>mm_free(q)\<close> has returned, \<open>p\<close> is free, the block after it is \<open>q\<close>, and \<open>q\<close>
  is free too, which is the condition that \<open>checkblock\<close> reports.
\<close>

theorem free_leaves_adjacent_free_blocks:
  "mm_init fresh_heap = Inr (0, heap_init) \<and>
   mm_malloc heap_init 200 = Some (Inr (65688, heapB2)) \<and>
   mm_malloc heapB2 8 = Some (Inr (65904, heapB3)) \<and>
   mm_realloc heapB3 65688 1 = Some (Inr (65688, heapB4)) \<and>
   mm_malloc heapB4 176 = Some (Inr (65712, heapB5)) \<and>
   mm_free heapB5 65688 = Inr heapB6 \<and>
   mm_free heapB6 65712 = Inr heapB7 \<and>
   GET_ALLOC heapB7 (HDRP 65688) = 0 \<and>
   NEXT_BLKP heapB7 65688 = 65712 \<and>
   GET_ALLOC heapB7 (HDRP 65712) = 0 \<and>
   escaped_coalescing heapB7 65688"
proof -
  have "GET_ALLOC heapB7 (HDRP 65688) = 0" "NEXT_BLKP heapB7 65688 = 65712"
    "GET_ALLOC heapB7 (HDRP 65712) = 0"
    by (simp_all add: heapB7_def run_simps)
  moreover from this have "escaped_coalescing heapB7 65688"
    by (simp add: escaped_coalescing_def to_int_def)
  ultimately show ?thesis
    using run_init runB_malloc_p runB_malloc_8 runB_realloc runB_malloc_q runB_free_p
      runB_free_q
    by simp
qed

theorem free_leaves_adjacent_free_blocks_witness:
  "mm_free heapB6 65712 = Inr heapB7 \<and> escaped_coalescing heapB7 65688"
  using free_leaves_adjacent_free_blocks by simp

section \<open>Heap extension\<close>

lemma round_up_16_words:
  fixes m :: nat
  defines "w \<equiv> (if m mod 8 = 0 then m div 8 else m div 8 + 1)"
  shows "(if w mod 2 \<noteq> 0 then (w + 1) * 8 else w * 8) = round_up m 16"
proof -
  define q r where "q = m div 16" and "r = m mod 16"
  have m: "m = q * 16 + r" and r: "r < 16" unfolding q_def r_def by simp_all
  have "m = r + (2 * q) * 8" using m by simp
  then have d8: "m div 8 = 2 * q + r div 8" by (simp only: div_mult_self1)
  have "m = r + 8 * (2 * q)" using m by simp
  then have m8: "m mod 8 = r mod 8" by (simp only: mod_mult_self2)
  have ru: "round_up m 16 = (if r = 0 then q * 16 else (q + 1) * 16)"
  proof -
    have a: "(m + 15) div 16 = q" if "r = 0" using that m by (intro div_nat_eqI) simp_all
    have b: "(m + 15) div 16 = q + 1" if "r \<noteq> 0" using that m r by (intro div_nat_eqI) simp_all
    have c: "round_up m 16 = (m + 15) div 16 * 16" by (simp add: round_up_def)
    show ?thesis
    proof (cases "r = 0")
      case True
      with a show ?thesis unfolding c by simp
    next
      case False
      with b show ?thesis unfolding c by simp
    qed
  qed
  consider "r = 0" | "0 < r" "r < 8" | "r = 8" | "8 < r" "r < 16" using r by linarith
  then show ?thesis
  proof cases
    case 1
    then show ?thesis unfolding ru w_def d8 m8 by simp
  next
    case 2
    then have "r div 8 = 0" "r mod 8 \<noteq> 0" by simp_all
    with 2 show ?thesis unfolding ru w_def d8 m8 by simp
  next
    case 3
    then show ?thesis unfolding ru w_def d8 m8 by simp
  next
    case 4
    then have r1: "r div 8 = 1" by (intro div_nat_eqI) simp_all
    have "r mod 8 \<noteq> 0" using 4 r1 div_mult_mod_eq[of r 8] by auto
    with r1 show ?thesis using 4 unfolding ru w_def d8 m8 by simp
  qed
qed

lemma unat_MAX_of: "unat (MAX_of x y) = max (unat x) (unat y)"
  by (auto simp: MAX_of_def word_less_nat_alt max_def)

lemma to_int_pos_bound:
  assumes "0 < to_int x"
  shows "unat x < 2 ^ 64 - 2 ^ 31"
proof (rule ccontr)
  assume "\<not> unat x < 2 ^ 64 - 2 ^ 31"
  then have "18446744071562067968 \<le> unat x" by simp
  then have lo: "18446744071562067968 \<le> uint x" using uint_nat [of x] by linarith
  have "uint x < 2 ^ LENGTH(64)" by (rule uint_lt2p)
  then have hi: "uint x < 18446744073709551616" by simp
  have "(word_of_int (uint x - 18446744073709551616) :: 32 word) = word_of_int (uint x)"
    by simp
  then have "to_int x = sint (word_of_int (uint x - 18446744073709551616) :: 32 word)"
    by (simp only: to_int_def ucast_64_32)
  also have "\<dots> = signed_take_bit (LENGTH(32) - 1) (uint x - 18446744073709551616)"
    by (simp only: sint_sbintrunc')
  also have "\<dots> = uint x - 18446744073709551616"
  proof (rule signed_take_bit_int_eq_self)
    have "- 2147483648 \<le> uint x - 18446744073709551616" using lo by linarith
    then show "- (2 ^ (LENGTH(32) - 1)) \<le> uint x - 18446744073709551616" by simp
    have "uint x - 18446744073709551616 < 2147483648" using hi by linarith
    then show "uint x - 18446744073709551616 < 2 ^ (LENGTH(32) - 1)" by simp
  qed
  finally have "to_int x < 0" using hi by linarith
  with assms show False by simp
qed

lemma find_fit_loop_pos:
  "find_fit_loop s asize i = Some (Inr p) \<Longrightarrow> i < 15 \<Longrightarrow> 0 < to_int asize"
  by (subst (asm) find_fit_loop.simps) (auto simp: mm_consts find_block_list_def split: if_splits)

lemma find_fit_pos:
  assumes "find_fit s asize = Some (Inr p)"
  shows "0 < to_int asize"
proof -
  from assms obtain k where k: "get_list_index (to_int asize) = Inr k"
    and l: "find_fit_loop s asize k = Some (Inr p)"
    by (auto simp: find_fit_def split: sum.splits)
  from k have "k = get_list_index_loop (to_int asize) 0"
    by (auto simp: get_list_index_def split: if_splits)
  moreover have "get_list_index_loop (to_int asize) 0 \<le> 14" by (rule glil_range) simp
  ultimately have "k < 15" by simp
  with l show ?thesis by (rule find_fit_loop_pos)
qed

lemma unat_words_of_bytes:
  fixes m :: uintptr
  assumes "unat m \<le> 2 ^ 64 - 17"
  shows "unat ((if m mod WSIZE \<noteq> 0 then ((m div WSIZE) + 1) * WSIZE else m) div WSIZE)
         = (if unat m mod 8 = 0 then unat m div 8 else unat m div 8 + 1)"
proof -
  define n where "n = unat m"
  have n: "n \<le> 18446744073709551599" using assms by (simp add: n_def)
  then have nd: "n div 8 \<le> 2305843009213693949" by linarith
  have m8: "m mod 8 = 0 \<longleftrightarrow> n mod 8 = 0"
    unfolding n_def by (simp add: word_unat_eq_iff unat_mod)
  have d: "unat (m div 8) = n div 8" unfolding n_def by (simp add: unat_div)
  have "unat (m div 8) + unat (1::uintptr) < 2 ^ LENGTH(64)" using nd d by simp
  then have "unat (m div 8 + 1) = unat (m div 8) + unat (1::uintptr)"
    by (rule unat_add_lem [THEN iffD1])
  then have d1: "unat (m div 8 + 1) = n div 8 + 1" using d by simp
  have "unat (m div 8 + 1) * unat (8::uintptr) < 2 ^ LENGTH(64)" using nd d1 by simp
  then have "unat ((m div 8 + 1) * 8) = unat (m div 8 + 1) * unat (8::uintptr)"
    by (rule unat_mult_lem [THEN iffD1])
  then have d2: "unat ((m div 8 + 1) * 8) = (n div 8 + 1) * 8" using d1 by simp
  have d3: "unat ((m div 8 + 1) * 8 div 8) = n div 8 + 1"
    using d2 by (simp add: unat_div)
  show ?thesis
    unfolding n_def[symmetric] using m8 d d3 by (simp add: mm_consts)
qed

lemma unat_extend_size:
  fixes words :: uintptr
  assumes "unat words \<le> 2 ^ 61 - 2"
  shows "unat (extend_size words)
         = (if unat words mod 2 \<noteq> 0 then (unat words + 1) * 8 else unat words * 8)"
proof -
  define w where "w = unat words"
  have w: "w \<le> 2305843009213693950" using assms by (simp add: w_def)
  have m2: "words mod 2 = 0 \<longleftrightarrow> w mod 2 = 0"
    unfolding w_def by (simp add: word_unat_eq_iff unat_mod)
  have "unat words + unat (1::uintptr) < 2 ^ LENGTH(64)" using w by (simp add: w_def)
  then have "unat (words + 1) = unat words + unat (1::uintptr)"
    by (rule unat_add_lem [THEN iffD1])
  then have d1: "unat (words + 1) = w + 1" by (simp add: w_def)
  have "unat (words + 1) * unat (8::uintptr) < 2 ^ LENGTH(64)" using w d1 by simp
  then have "unat ((words + 1) * 8) = unat (words + 1) * unat (8::uintptr)"
    by (rule unat_mult_lem [THEN iffD1])
  then have d2: "unat ((words + 1) * 8) = (w + 1) * 8" using d1 by simp
  have "unat words * unat (8::uintptr) < 2 ^ LENGTH(64)" using w by (simp add: w_def)
  then have "unat (words * 8) = unat words * unat (8::uintptr)"
    by (rule unat_mult_lem [THEN iffD1])
  then have d3: "unat (words * 8) = w * 8" by (simp add: w_def)
  show ?thesis
    unfolding extend_size_def w_def[symmetric] using m2 d2 d3 by (simp add: mm_consts)
qed

lemma unat_malloc_extension:
  assumes "0 < to_int asize"
  shows "unat (extend_size (malloc_extendsize asize div WSIZE))
         = round_up (max (unat asize) 4104) 16"
proof -
  define m where "m = MAX_of asize CHUNKSIZE"
  have um: "unat m = max (unat asize) 4104"
    by (simp add: m_def unat_MAX_of mm_consts)
  have "unat asize < 2 ^ 64 - 2 ^ 31" using assms by (rule to_int_pos_bound)
  then have "unat asize \<le> 18446744073709551599" by simp
  then have m63: "unat m \<le> 2 ^ 64 - 17" using um by simp
  define w where "w = (if unat m mod 8 = 0 then unat m div 8 else unat m div 8 + 1)"
  have words: "unat (malloc_extendsize asize div WSIZE) = w"
    unfolding malloc_extendsize_def Let_def m_def[symmetric] w_def
    by (rule unat_words_of_bytes [OF m63])
  have "unat m \<le> 18446744073709551599" using m63 by simp
  then have "unat m div 8 \<le> 2305843009213693949" by linarith
  then have "w \<le> 2305843009213693950" unfolding w_def by (simp split: if_splits)
  then have "w \<le> 2 ^ 61 - 2" by simp
  then have "unat (extend_size (malloc_extendsize asize div WSIZE))
      = (if w mod 2 \<noteq> 0 then (w + 1) * 8 else w * 8)"
    using unat_extend_size [of "malloc_extendsize asize div WSIZE"] words by simp
  also have "\<dots> = round_up (unat m) 16"
    unfolding w_def by (rule round_up_16_words)
  finally show ?thesis by (simp add: um)
qed

lemma region_of_PUT [simp]: "region_of (PUT s p v) = region_of s"
  by (simp add: region_of_def PUT_def)

lemma bindE_eq_Inr: "bindE r f = Inr y \<longleftrightarrow> (\<exists>x. r = Inr x \<and> f x = Inr y)"
  by (cases r) (simp_all add: bindE_def)

lemma insert_block_region: "insert_block s bp sz = Inr s' \<Longrightarrow> region_of s' = region_of s"
  unfolding insert_block_def
  by (auto simp: bindE_eq_Inr Let_def split: if_splits)

lemma delete_block_region: "delete_block s bp = Inr s' \<Longrightarrow> region_of s' = region_of s"
  unfolding delete_block_def
  by (auto simp: bindE_eq_Inr Let_def split: if_splits)

lemma place_region: "place s bp asize = Inr (r, s') \<Longrightarrow> region_of s' = region_of s"
  unfolding place_def
  by (auto simp: bindE_eq_Inr Let_def dest!: insert_block_region delete_block_region split: if_splits)

lemma coalesce_region: "coalesce s bp = Inr (r, s') \<Longrightarrow> region_of s' = region_of s"
  unfolding coalesce_def
  by (auto simp: bindE_eq_Inr Let_def dest!: insert_block_region delete_block_region split: if_splits)

lemma unat_minus_one_64: "unat (- 1 :: uintptr) = 18446744073709551615"
  by (simp add: unsigned_minus_1_eq_mask mask_eq_exp_minus_1)

lemma mem_sbrk_fail: "fst (mem_sbrk s incr) = - 1 \<Longrightarrow> mem_sbrk s incr = (- 1, s)"
proof (cases "unat (mem_brk s) + unat incr > unat (mem_max_addr s)")
  case True
  then show ?thesis by (simp add: mem_sbrk_def)
next
  case False
  assume "fst (mem_sbrk s incr) = - 1"
  with False have brk: "mem_brk s = - 1" by (simp add: mem_sbrk_def)
  have "unat (mem_max_addr s) < 2 ^ 64"
    using unsigned_less [of "mem_max_addr s", where ?'a = nat] by simp
  with False brk have "unat incr = 0" by (simp add: unat_minus_one_64)
  then have "incr = 0" by (simp add: unat_eq_0)
  with False brk show ?thesis by (simp add: mem_sbrk_def)
qed

lemma round_up_16_ge: "n \<le> round_up n 16"
proof -
  have "(n + 15) div 16 * 16 + (n + 15) mod 16 = n + 15" by simp
  moreover have "(n + 15) mod 16 < 16" by simp
  ultimately have "n \<le> (n + 15) div 16 * 16" by linarith
  then show ?thesis by (simp add: round_up_def)
qed

lemma extend_heap_fail:
  "fst (mem_sbrk s (extend_size words)) = - 1 \<Longrightarrow> extend_heap s words = Inr (NULL, s)"
  by (simp add: extend_heap_def mem_sbrk_fail)

lemma mm_malloc_no_fit:
  assumes "sz \<noteq> 0" and "find_fit s (malloc_asize sz) = Some (Inr NULL)"
  shows "mm_malloc s sz =
     Some (bindE (extend_heap s (malloc_extendsize (malloc_asize sz) div WSIZE)) (\<lambda>(bp, s1).
       if bp = NULL then Inr (NULL, s1)
       else bindE (place s1 bp (malloc_asize sz)) (\<lambda>(r, s2). Inr (bp, s2))))"
  using assms by (simp add: mm_malloc_def Let_def)

lemma mm_malloc_extension_fails:
  assumes "sz \<noteq> 0" and "find_fit s (malloc_asize sz) = Some (Inr NULL)"
    and "fst (mem_sbrk s (extend_size (malloc_extendsize (malloc_asize sz) div WSIZE))) = - 1"
  shows "mm_malloc s sz = Some (Inr (NULL, s))"
  using assms by (simp add: mm_malloc_no_fit extend_heap_fail bindE_Inr)

lemma mm_realloc_must_move:
  assumes "sz \<noteq> 0" "ptr \<noteq> NULL" "realloc_must_move s ptr sz"
  shows "mm_realloc s ptr sz = mm_realloc_fallback s ptr sz (GET_SIZE s (HDRP ptr))"
  using assms unfolding mm_realloc_def realloc_must_move_def Let_def
  by (auto split: if_splits)

lemma extend_heap_success:
  assumes ok: "unat (mem_brk s) + unat (extend_size words) \<le> unat (mem_max_addr s)"
    and nz: "extend_size words \<noteq> 0"
    and res: "extend_heap s words = Inr (bp, s')"
  shows "mem_brk s' = mem_brk s + extend_size words"
proof -
  have sb: "mem_sbrk s (extend_size words)
      = (mem_brk s, s\<lparr>mem_brk := mem_brk s + extend_size words\<rparr>)"
    using ok by (simp add: mem_sbrk_def)
  have "unat (extend_size words) \<noteq> 0" using nz by (simp add: unat_eq_0)
  then have "unat (mem_brk s) < 2 ^ 64 - 1"
    using ok unsigned_less [of "mem_max_addr s", where ?'a = nat] by simp
  then have "mem_brk s \<noteq> - 1"
    by (auto simp: unat_minus_one_64)
  with res sb have "region_of s' = region_of (s\<lparr>mem_brk := mem_brk s + extend_size words\<rparr>)"
    unfolding extend_heap_def
    by (auto simp: bindE_eq_Inr Let_def dest!: insert_block_region coalesce_region)
  then show ?thesis by (simp add: region_of_def)
qed


text \<open>
  Claim C4, as amended. When the first-fit search finds no block for the adjusted size,
  \<open>mm_malloc\<close> asks the region provider, through \<open>extend_heap\<close>, for exactly
  \<open>max(asize, CHUNKSIZE)\<close> rounded up to an even number of words, that is to a multiple
  of \<open>2 * WSIZE = 16\<close>. If the provider fails, \<open>mm_malloc\<close> returns \<open>NULL\<close> and
  the heap is unchanged. If it succeeds, the provider has moved the end of the heap by exactly
  that amount, \<open>mm_malloc\<close> terminates, and the end of the heap is there when it returns
  (a run stopped by a failed \<open>assert\<close> of the list routines returns nothing).
\<close>

theorem malloc_extends_heap:
  assumes "sz \<noteq> 0"
    and "find_fit s (malloc_asize sz) = Some (Inr NULL)"
  shows "unat (extend_size (malloc_extendsize (malloc_asize sz) div WSIZE))
           = round_up (max (unat (malloc_asize sz)) 4104) 16 \<and>
         (unat (mem_max_addr s) < unat (mem_brk s) + round_up (max (unat (malloc_asize sz)) 4104) 16
            \<longrightarrow> mm_malloc s sz = Some (Inr (NULL, s))) \<and>
         (unat (mem_brk s) + round_up (max (unat (malloc_asize sz)) 4104) 16 \<le> unat (mem_max_addr s)
            \<longrightarrow> unat (mem_brk (snd (mem_sbrk s
                      (extend_size (malloc_extendsize (malloc_asize sz) div WSIZE)))))
                   = unat (mem_brk s) + round_up (max (unat (malloc_asize sz)) 4104) 16 \<and>
                 (\<exists>r. mm_malloc s sz = Some r \<and>
                  (\<forall>bp s'. r = Inr (bp, s') \<longrightarrow>
                     unat (mem_brk s') =
                       unat (mem_brk s) + round_up (max (unat (malloc_asize sz)) 4104) 16)))"
proof -
  define ext where "ext = extend_size (malloc_extendsize (malloc_asize sz) div WSIZE)"
  have pos: "0 < to_int (malloc_asize sz)" using assms(2) by (rule find_fit_pos)
  have ue: "unat ext = round_up (max (unat (malloc_asize sz)) 4104) 16"
    unfolding ext_def using pos by (rule unat_malloc_extension)
  have "4104 \<le> max (unat (malloc_asize sz)) 4104" by simp
  also have "\<dots> \<le> round_up (max (unat (malloc_asize sz)) 4104) 16"
    by (rule round_up_16_ge)
  finally have big: "4104 \<le> unat ext" using ue by simp
  then have nz: "ext \<noteq> 0" by auto
  have fail: "mm_malloc s sz = Some (Inr (NULL, s))"
    if "unat (mem_max_addr s) < unat (mem_brk s) + unat ext"
  proof -
    from that have "fst (mem_sbrk s ext) = - 1" by (simp add: mem_sbrk_def)
    with assms(1,2) show ?thesis unfolding ext_def by (rule mm_malloc_extension_fails)
  qed
  have succ: "unat (mem_brk (snd (mem_sbrk s ext))) = unat (mem_brk s) + unat ext \<and>
      (\<exists>r. mm_malloc s sz = Some r \<and>
      (\<forall>bp s'. r = Inr (bp, s') \<longrightarrow> unat (mem_brk s') = unat (mem_brk s) + unat ext))"
    if ok: "unat (mem_brk s) + unat ext \<le> unat (mem_max_addr s)"
  proof -
    have brk: "mem_brk s1 = mem_brk s + ext"
      if "extend_heap s (malloc_extendsize (malloc_asize sz) div WSIZE) = Inr (bp, s1)" for bp s1
      using ok nz that unfolding ext_def by (rule extend_heap_success)
    have "unat (mem_brk s) + unat ext < 2 ^ LENGTH(64)"
      using ok unsigned_less [of "mem_max_addr s", where ?'a = nat] by simp
    then have un: "unat (mem_brk s + ext) = unat (mem_brk s) + unat ext"
      by (rule unat_add_lem [THEN iffD1])
    have sb: "unat (mem_brk (snd (mem_sbrk s ext))) = unat (mem_brk s) + unat ext"
      using ok un by (simp add: mem_sbrk_def)
    have "unat (mem_brk s') = unat (mem_brk s) + unat ext"
      if "bindE (extend_heap s (malloc_extendsize (malloc_asize sz) div WSIZE)) (\<lambda>(bp, s1).
       if bp = NULL then Inr (NULL, s1)
       else bindE (place s1 bp (malloc_asize sz)) (\<lambda>(r, s2). Inr (bp, s2))) = Inr (bp, s')" for bp s'
    proof -
      from that obtain bp1 s1 where
        e: "extend_heap s (malloc_extendsize (malloc_asize sz) div WSIZE) = Inr (bp1, s1)"
        and p: "(if bp1 = NULL then Inr (NULL, s1)
                 else bindE (place s1 bp1 (malloc_asize sz)) (\<lambda>(r, s2). Inr (bp1, s2))) = Inr (bp, s')"
        by (auto simp: bindE_eq_Inr)
      from p have "region_of s' = region_of s1"
        by (auto simp: bindE_eq_Inr dest!: place_region split: if_splits)
      then have "mem_brk s' = mem_brk s1" by (simp add: region_of_def)
      with brk [OF e] un show ?thesis by simp
    qed
    then have "\<exists>r. mm_malloc s sz = Some r \<and>
      (\<forall>bp s'. r = Inr (bp, s') \<longrightarrow> unat (mem_brk s') = unat (mem_brk s) + unat ext)"
      using assms(1,2) by (simp add: mm_malloc_no_fit)
    with sb show ?thesis by simp
  qed
  from fail succ show ?thesis unfolding ext_def [symmetric] ue [symmetric] by blast
qed

theorem malloc_extends_heap_witness:
  "unat (mem_brk heapC2) = unat (mem_brk heap_init) + 4224 \<and>
   mm_malloc heapA2_full 5000 = Some (Inr (NULL, heapA2_full))"
proof -
  have nofit: "find_fit heap_init (malloc_asize 4200) = Some (Inr NULL)"
    by (simp add: heap_init_def run_simps cong: run_congs)
  have a: "unat (malloc_asize 4200) = 4216"
    by (simp add: run_simps)
  have r: "round_up (max 4216 4104) 16 = 4224"
    by (simp add: round_up_def)
  have "unat (mem_brk heap_init) + 4224 \<le> unat (mem_max_addr heap_init)"
    by (simp add: heap_init_def)
  with malloc_extends_heap [of 4200 heap_init] nofit a r runC_malloc
  have grow: "unat (mem_brk heapC2) = unat (mem_brk heap_init) + 4224"
    by simp
  have nofit': "find_fit heapA2_full (malloc_asize 5000) = Some (Inr NULL)"
    by (simp add: heapA2_full_def heapA2_def run_simps cong: run_congs)
  have a': "unat (malloc_asize 5000) = 5016"
    by (simp add: run_simps)
  have r': "round_up (max 5016 4104) 16 = 5024"
    by (simp add: round_up_def)
  have "unat (mem_max_addr heapA2_full) < unat (mem_brk heapA2_full) + 5024"
    by (simp add: heapA2_full_def heapA2_def)
  with malloc_extends_heap [of 5000 heapA2_full] nofit' a' r'
  have "mm_malloc heapA2_full 5000 = Some (Inr (NULL, heapA2_full))"
    by simp
  with grow show ?thesis by simp
qed

text \<open>
  Claim C4 as stated fails. After \<open>mm_init\<close>, \<open>mm_malloc(4200)\<close> has the adjusted
  size 4216 and finds no fit; \<open>max(4216, CHUNKSIZE)\<close> is 4216, a multiple of \<open>WSIZE\<close>
  already, but \<open>extend_heap\<close> makes the 527 words even and the heap grows by 4224 bytes.
\<close>

theorem malloc_extension_counterexample:
  "find_fit heap_init (malloc_asize 4200) = Some (Inr NULL) \<and>
   malloc_asize 4200 = 4216 \<and>
   malloc_extendsize (malloc_asize 4200) = 4216 \<and>
   mm_malloc heap_init 4200 = Some (Inr (65688, heapC2)) \<and>
   mem_brk heapC2 = mem_brk heap_init + 4224"
proof -
  have "find_fit heap_init (malloc_asize 4200) = Some (Inr NULL)"
    by (simp add: heap_init_def run_simps cong: run_congs)
  moreover have "malloc_asize 4200 = 4216" "malloc_extendsize (malloc_asize 4200) = 4216"
    by (simp_all add: run_simps)
  moreover have "mem_brk heapC2 = mem_brk heap_init + 4224"
    by (simp add: heapC2_def heap_init_def)
  ultimately show ?thesis using runC_malloc by simp
qed

section \<open>Failure of the heap extension\<close>

text \<open>
  Claim C9. When the first-fit search finds no block and the region provider returns its
  failure sentinel, \<open>mm_malloc\<close> returns \<open>NULL\<close> and the state, memory included, is
  the state before the call; so does \<open>mm_realloc\<close>, called with a null pointer or
  reaching its last part, where the failed \<open>mm_malloc\<close> is followed by neither the copy
  nor the \<open>mm_free\<close>.
\<close>

theorem extension_failure_preserves_heap:
  assumes "sz \<noteq> 0"
    and "find_fit s (malloc_asize sz) = Some (Inr NULL)"
    and "fst (mem_sbrk s (extend_size (malloc_extendsize (malloc_asize sz) div WSIZE))) = - 1"
  shows "mm_malloc s sz = Some (Inr (NULL, s)) \<and>
         mm_realloc s NULL sz = Some (Inr (NULL, s)) \<and>
         (ptr \<noteq> NULL \<and> realloc_must_move s ptr sz \<longrightarrow>
            mm_realloc s ptr sz = Some (Inr (NULL, s)))"
proof -
  have m: "mm_malloc s sz = Some (Inr (NULL, s))"
    using assms by (rule mm_malloc_extension_fails)
  moreover have "mm_realloc s NULL sz = mm_malloc s sz"
    using assms(1) by (simp add: mm_realloc_def)
  moreover have "mm_realloc s ptr sz = Some (Inr (NULL, s))"
    if "ptr \<noteq> NULL" "realloc_must_move s ptr sz"
    using that assms(1) m by (simp add: mm_realloc_must_move mm_realloc_fallback_def)
  ultimately show ?thesis by simp
qed


theorem extension_failure_preserves_heap_witness:
  "mm_malloc heapA2_full 5000 = Some (Inr (NULL, heapA2_full)) \<and>
   mm_realloc heapA2_full NULL 5000 = Some (Inr (NULL, heapA2_full)) \<and>
   mm_realloc heapA2_full 65688 5000 = Some (Inr (NULL, heapA2_full))"
proof -
  have nofit: "find_fit heapA2_full (malloc_asize 5000) = Some (Inr NULL)"
    by (simp add: heapA2_full_def heapA2_def run_simps cong: run_congs)
  have fail: "fst (mem_sbrk heapA2_full
      (extend_size (malloc_extendsize (malloc_asize 5000) div WSIZE))) = - 1"
    by (simp add: heapA2_full_def heapA2_def run_simps)
  have move: "realloc_must_move heapA2_full 65688 5000"
    by (simp add: realloc_must_move_def heapA2_full_def heapA2_def run_simps)
  show ?thesis
    using extension_failure_preserves_heap [of 5000 heapA2_full 65688] nofit fail move
    by simp
qed

section \<open>First fit\<close>

lemma to_int_small: "unat x < 2 ^ 31 \<Longrightarrow> to_int x = uint x"
proof -
  assume a: "unat x < 2 ^ 31"
  then have "unat x < 2147483648" by simp
  then have "uint x < 2147483648" using uint_nat [of x] by linarith
  then have b: "uint x < 2 ^ 31" by simp
  have "sint (ucast x :: 32 word) = signed_take_bit (LENGTH(32) - 1) (uint x)"
    by (simp only: ucast_64_32 sint_sbintrunc')
  also have "\<dots> = uint x"
  proof (rule signed_take_bit_int_eq_self)
    have "0 \<le> uint x" by simp
    then have "- 2147483648 \<le> uint x" by linarith
    then show "- (2 ^ (LENGTH(32) - 1)) \<le> uint x" by simp
    show "uint x < 2 ^ (LENGTH(32) - 1)" using b by simp
  qed
  finally show ?thesis by (simp add: to_int_def)
qed

lemma to_int_le_iff:
  "unat x < 2 ^ 31 \<Longrightarrow> unat y < 2 ^ 31 \<Longrightarrow> to_int x \<le> to_int y \<longleftrightarrow> x \<le> y"
  by (simp add: to_int_small word_le_def)

lemma bin_chain_not_null: "bin_chain s p xs \<Longrightarrow> x \<in> set xs \<Longrightarrow> x \<noteq> NULL"
  by (induction xs arbitrary: p) auto

lemma find_block_list_loop_chain:
  "bin_chain s p xs \<Longrightarrow>
   find_block_list_loop s p a =
     Some (case List.find (\<lambda>x. a \<le> to_int (GET_SIZE s (HDRP x))) xs of
             Some x \<Rightarrow> x | None \<Rightarrow> NULL)"
proof (induction xs arbitrary: p)
  case Nil
  then show ?case by (simp add: fbl_null)
next
  case (Cons x xs)
  then have px: "p = x" and nz: "x \<noteq> NULL"
    and rest: "bin_chain s (GET s (next_field x)) xs" by simp_all
  show ?case
  proof (cases "a \<le> to_int (GET_SIZE s (HDRP x))")
    case True
    with px nz show ?thesis by (simp add: fbl_hit)
  next
    case False
    with px nz Cons.IH [OF rest] show ?thesis by (simp add: fbl_miss)
  qed
qed

lemma find_block_list_chain:
  assumes "bin_chain s p xs"
    and "\<forall>x\<in>set xs. unat (GET_SIZE s (HDRP x)) < 2 ^ 31"
    and "asize \<noteq> 0" "unat asize < 2 ^ 31"
  shows "find_block_list s p (to_int asize) = Some (Inr (first_fit_of s asize xs))"
proof -
  have "0 < uint asize"
    using assms(3) by (simp add: word_greater_zero_iff[symmetric] word_less_def)
  then have pos: "0 < to_int asize" using assms(4) by (simp add: to_int_small)
  have "(to_int asize \<le> to_int (GET_SIZE s (HDRP x))) = (asize \<le> GET_SIZE s (HDRP x))"
    if "x \<in> set xs" for x
    using that assms(2,4) by (intro to_int_le_iff) auto
  then have "List.find (\<lambda>x. to_int asize \<le> to_int (GET_SIZE s (HDRP x))) xs
      = List.find (\<lambda>x. asize \<le> GET_SIZE s (HDRP x)) xs"
    by (rule find_cong [OF refl])
  then show ?thesis
    using pos find_block_list_loop_chain [OF assms(1), of "to_int asize"]
    by (simp add: find_block_list_def first_fit_of_def)
qed

lemma first_fit_of_Nil: "first_fit_of s asize [] = NULL"
  by (simp add: first_fit_of_def)

lemma first_fit_of_Cons:
  "first_fit_of s asize (x # xs) =
     (if asize \<le> GET_SIZE s (HDRP x) then x else first_fit_of s asize xs)"
  by (simp add: first_fit_of_def)

lemma first_fit_of_append:
  "first_fit_of s asize (xs @ ys) =
     (if \<exists>x\<in>set xs. asize \<le> GET_SIZE s (HDRP x)
      then first_fit_of s asize xs else first_fit_of s asize ys)"
  by (induction xs) (simp_all add: first_fit_of_Nil first_fit_of_Cons)

lemma first_fit_of_NULL_iff:
  "NULL \<notin> set xs \<Longrightarrow>
   first_fit_of s asize xs = NULL \<longleftrightarrow> \<not> (\<exists>x\<in>set xs. asize \<le> GET_SIZE s (HDRP x))"
  by (induction xs) (auto simp: first_fit_of_Nil first_fit_of_Cons)

lemma first_fit_of_fits:
  "\<exists>x\<in>set xs. asize \<le> GET_SIZE s (HDRP x) \<Longrightarrow>
   first_fit_of s asize xs \<in> set xs \<and> asize \<le> GET_SIZE s (HDRP (first_fit_of s asize xs))"
  by (induction xs) (auto simp: first_fit_of_Cons)

lemma bins_are_length: "bins_are s bins \<Longrightarrow> length bins = 15"
  by (auto simp: bins_are_def mm_consts dest: list_all2_lengthD)

lemma bins_are_nth: "bins_are s bins \<Longrightarrow> i < 15 \<Longrightarrow> bin_chain s (GET s (bin_slot s i)) (bins ! i)"
  unfolding bins_are_def using list_all2_nthD [of _ "[0..<BIN_NUM]" bins i]
  by (simp add: mm_consts)

lemma find_fit_loop_bins:
  assumes "bins_are s bins"
    and "\<forall>x\<in>set (concat bins). unat (GET_SIZE s (HDRP x)) < 2 ^ 31"
    and "asize \<noteq> 0" "unat asize < 2 ^ 31"
  shows "i \<le> 15 \<Longrightarrow>
         find_fit_loop s asize i = Some (Inr (first_fit_of s asize (concat (drop i bins))))"
proof (induction "15 - i" arbitrary: i)
  case 0
  then have "i = 15" by simp
  then show ?case using bins_are_length [OF assms(1)]
    by (simp add: ffl_stop first_fit_of_Nil)
next
  case (Suc n)
  then have i: "i < 15" by simp
  have len: "length bins = 15" by (rule bins_are_length [OF assms(1)])
  have d: "drop i bins = (bins ! i) # drop (Suc i) bins"
    using i len by (simp add: Cons_nth_drop_Suc)
  have ch: "bin_chain s (GET s (bin_slot s i)) (bins ! i)"
    using assms(1) i by (rule bins_are_nth)
  have "bins ! i \<in> set bins" using i len by simp
  then have sz: "\<forall>x\<in>set (bins ! i). unat (GET_SIZE s (HDRP x)) < 2 ^ 31"
    using assms(2) by auto
  have fbl: "find_block_list s (GET s (bin_slot s i)) (to_int asize)
      = Some (Inr (first_fit_of s asize (bins ! i)))"
    using ch sz assms(3,4) by (rule find_block_list_chain)
  have nn: "NULL \<notin> set (bins ! i)"
    using bin_chain_not_null [OF ch] by blast
  have IH: "find_fit_loop s asize (Suc i)
      = Some (Inr (first_fit_of s asize (concat (drop (Suc i) bins))))"
    using Suc.hyps(1) [of "Suc i"] Suc.hyps(2) i by simp
  show ?case
  proof (cases "\<exists>x\<in>set (bins ! i). asize \<le> GET_SIZE s (HDRP x)")
    case True
    then have "first_fit_of s asize (bins ! i) \<noteq> NULL"
      using first_fit_of_NULL_iff [OF nn, of s asize] by simp
    with True i fbl show ?thesis
      by (simp add: ffl_step d first_fit_of_append)
  next
    case False
    then have "first_fit_of s asize (bins ! i) = NULL"
      using first_fit_of_NULL_iff [OF nn, of s asize] by simp
    with False i fbl IH show ?thesis
      by (simp add: ffl_step d first_fit_of_append)
  qed
qed

lemma find_fit_bins:
  assumes "bins_are s bins"
    and "\<forall>x\<in>set (concat bins). unat (GET_SIZE s (HDRP x)) < 2 ^ 31"
    and "asize \<noteq> 0" "unat asize < 2 ^ 31"
  shows "\<exists>k. get_list_index (to_int asize) = Inr k \<and> k < 15 \<and>
             find_fit s asize = Some (Inr (first_fit_of s asize (concat (drop k bins))))"
proof -
  have nn: "0 \<le> to_int asize" using assms(4) by (simp add: to_int_small)
  define k where "k = get_list_index_loop (to_int asize) 0"
  have k: "get_list_index (to_int asize) = Inr k"
    using nn by (simp add: get_list_index_nonneg k_def)
  have k14: "k \<le> 14" unfolding k_def by (rule glil_range) simp
  then have "find_fit_loop s asize k = Some (Inr (first_fit_of s asize (concat (drop k bins))))"
    by (intro find_fit_loop_bins [OF assms]) simp
  with k k14 show ?thesis by (simp add: find_fit_def)
qed

lemma bins_are_B4: "bins_are heapB4 binsB4"
  by (simp add: bins_are_def binsB4_def heapB4_def run_simps)


text \<open>
  The search on sizes that fit an \<open>int\<close>. Let the bins be \<open>NULL\<close>-terminated lists
  of blocks smaller than \<open>2 ^ 31\<close> bytes and let the requested size be positive and
  below \<open>2 ^ 31\<close>. Then \<open>find_fit\<close> returns: it starts at the bin \<open>k\<close> that
  \<open>get_list_index\<close> computes from the size, scans the bins \<open>k, \<dots>, 14\<close> in this
  order, each from its head (the newest block) along the \<open>next\<close> links, and returns
  the first block whose size is at least the requested size, or \<open>NULL\<close> when none of
  these blocks suffices.
\<close>

lemma find_fit_first_fit:
  assumes "bins_are s bins"
    and "\<forall>x\<in>set (concat bins). unat (GET_SIZE s (HDRP x)) < 2 ^ 31"
    and "asize \<noteq> 0" and "unat asize < 2 ^ 31"
  shows "\<exists>k. get_list_index (to_int asize) = Inr k \<and> k < 15 \<and>
             find_fit s asize = Some (Inr (first_fit_of s asize (concat (drop k bins))))"
  using assms by (rule find_fit_bins)


lemma find_fit_first_fit_example:
  "find_fit heapB4 200 = Some (Inr 65936) \<and>
   GET_SIZE heapB4 (HDRP 65712) = 192 \<and> GET_SIZE heapB4 (HDRP 65936) = 3864"
proof -
  have sz: "\<forall>x\<in>set (concat binsB4). unat (GET_SIZE heapB4 (HDRP x)) < 2 ^ 31"
    by (simp add: binsB4_def heapB4_def run_simps)
  have k: "get_list_index (to_int 200) = Inr 1"
    by (simp add: run_simps)
  have ff: "first_fit_of heapB4 200 (concat (drop 1 binsB4)) = 65936"
    by (simp add: first_fit_of_def binsB4_def heapB4_def run_simps)
  have "GET_SIZE heapB4 (HDRP 65712) = 192" "GET_SIZE heapB4 (HDRP 65936) = 3864"
    by (simp_all add: heapB4_def run_simps)
  then show ?thesis
    using find_fit_first_fit [OF bins_are_B4 sz, of 200] k ff by auto
qed


lemma bins_are_init: "bins_are heap_init bins_init"
  by (simp add: bins_are_def bins_init_def heap_init_def run_simps)

text \<open>
  Claim C6 fails on the code. \<open>find_fit\<close> takes the requested size as a \<open>size_t\<close>
  and hands it to \<open>get_list_index\<close> and \<open>find_block_list\<close>, which take an \<open>int\<close>
  and compare it with the block sizes cast to \<open>int\<close>. After \<open>mm_init\<close>,
  \<open>mm_malloc(4294967312)\<close> searches for the adjusted size \<open>2 ^ 32 + 32\<close>, which the
  helpers see as 32. The only free block, in bin 5, has 4112 bytes: no block of any bin
  suffices and the search is to return \<open>NULL\<close>, yet \<open>find_fit\<close> returns that block,
  which is smaller than the requested size.
\<close>

theorem find_fit_truncates_request:
  "mm_init fresh_heap = Inr (0, heap_init) \<and>
   malloc_asize 4294967312 = 4294967328 \<and>
   to_int 4294967328 = 32 \<and>
   bins_are heap_init bins_init \<and>
   concat bins_init = [65688] \<and>
   GET_SIZE heap_init (HDRP 65688) = 4112 \<and>
   \<not> 4294967328 \<le> GET_SIZE heap_init (HDRP 65688) \<and>
   first_fit_of heap_init 4294967328 (concat bins_init) = NULL \<and>
   find_fit heap_init 4294967328 = Some (Inr 65688)"
proof -
  have "malloc_asize 4294967312 = 4294967328" "to_int 4294967328 = 32"
    by (simp_all add: run_simps)
  moreover have "concat bins_init = [65688]"
    by (simp add: bins_init_def)
  moreover have "GET_SIZE heap_init (HDRP 65688) = 4112"
    "\<not> 4294967328 \<le> GET_SIZE heap_init (HDRP 65688)"
    by (simp_all add: heap_init_def run_simps)
  moreover have "first_fit_of heap_init 4294967328 (concat bins_init) = NULL"
    by (simp add: first_fit_of_def bins_init_def heap_init_def run_simps)
  moreover have "find_fit heap_init 4294967328 = Some (Inr 65688)"
    by (simp add: heap_init_def run_simps cong: run_congs)
  ultimately show ?thesis
    using run_init bins_are_init by simp
qed


section \<open>The search starts at the right bin\<close>

lemma sized_bins_nth:
  "sized_bins s bins \<Longrightarrow> i < 15 \<Longrightarrow> x \<in> set (bins ! i) \<Longrightarrow>
   unat (GET_SIZE s (HDRP x)) < 2 ^ 31 \<and> get_list_index (to_int (GET_SIZE s (HDRP x))) = Inr i"
proof -
  assume sb: "sized_bins s bins" and i: "i < 15" and x: "x \<in> set (bins ! i)"
  from sb have la: "list_all2 (\<lambda>i xs. \<forall>x\<in>set xs. unat (GET_SIZE s (HDRP x)) < 2 ^ 31 \<and>
      get_list_index (to_int (GET_SIZE s (HDRP x))) = Inr i) [0..<BIN_NUM] bins"
    by (simp add: sized_bins_def)
  from list_all2_nthD [OF la, of i] i x show ?thesis
    by (simp add: mm_consts)
qed

lemma sized_bins_small:
  assumes "sized_bins s bins" and "bins_are s bins"
  shows "\<forall>x\<in>set (concat bins). unat (GET_SIZE s (HDRP x)) < 2 ^ 31"
proof
  fix x assume "x \<in> set (concat bins)"
  then obtain xs where "xs \<in> set bins" and xxs: "x \<in> set xs" by auto
  then obtain i where "i < length bins" "bins ! i = xs" by (auto simp: in_set_conv_nth)
  with xxs have "i < length bins" "x \<in> set (bins ! i)" by simp_all
  with bins_are_length [OF assms(2)] sized_bins_nth [OF assms(1), of i x]
  show "unat (GET_SIZE s (HDRP x)) < 2 ^ 31" by simp
qed

lemma get_list_index_mono:
  assumes "0 \<le> s1" "s1 \<le> s2"
  shows "\<exists>k1 k2. get_list_index s1 = Inr k1 \<and> get_list_index s2 = Inr k2 \<and> k1 \<le> k2 \<and> k2 \<le> 14"
proof -
  have "get_list_index_loop s1 0 \<le> get_list_index_loop s2 0"
    using assms(2) by (intro glil_mono) simp_all
  moreover have "get_list_index_loop s2 0 \<le> 14" by (rule glil_range) simp
  ultimately show ?thesis using assms by (simp add: get_list_index_nonneg)
qed


text \<open>
  \<open>get_list_index\<close> is total on the sizes from 0 on, with values up to 14, and
  monotone. Consequently, where every listed block is smaller than \<open>2 ^ 31\<close> bytes and
  in the bin of its size, a block that satisfies a request is in a bin at or after the bin
  where \<open>find_fit\<close> starts, and \<open>find_fit\<close> then returns a block that satisfies the
  request.
\<close>

lemma first_fit_start_small_blocks:
  "(0 \<le> s1 \<and> s1 \<le> s2 \<longrightarrow>
      (\<exists>k1 k2. get_list_index s1 = Inr k1 \<and> get_list_index s2 = Inr k2 \<and> k1 \<le> k2 \<and> k2 \<le> 14)) \<and>
   (bins_are s bins \<and> sized_bins s bins \<and> asize \<noteq> 0 \<and>
    i < 15 \<and> x \<in> set (bins ! i) \<and> asize \<le> GET_SIZE s (HDRP x) \<longrightarrow>
      (\<exists>k. get_list_index (to_int asize) = Inr k \<and> k \<le> i \<and> x \<in> set (concat (drop k bins))) \<and>
      (\<exists>bp. find_fit s asize = Some (Inr bp) \<and> bp \<noteq> NULL \<and> asize \<le> GET_SIZE s (HDRP bp)))"
proof (rule conjI; rule impI)
  assume "0 \<le> s1 \<and> s1 \<le> s2"
  then show "\<exists>k1 k2. get_list_index s1 = Inr k1 \<and> get_list_index s2 = Inr k2 \<and> k1 \<le> k2 \<and> k2 \<le> 14"
    using get_list_index_mono [of s1 s2] by blast
next
  assume h: "bins_are s bins \<and> sized_bins s bins \<and> asize \<noteq> 0 \<and>
    i < 15 \<and> x \<in> set (bins ! i) \<and> asize \<le> GET_SIZE s (HDRP x)"
  then have ba: "bins_are s bins" and sb: "sized_bins s bins" and nz: "asize \<noteq> 0"
    and i: "i < 15" and x: "x \<in> set (bins ! i)"
    and fits: "asize \<le> GET_SIZE s (HDRP x)" by simp_all
  have len: "length bins = 15" by (rule bins_are_length [OF ba])
  have xs: "unat (GET_SIZE s (HDRP x)) < 2 ^ 31"
    and xi: "get_list_index (to_int (GET_SIZE s (HDRP x))) = Inr i"
    using sized_bins_nth [OF sb i x] by simp_all
  have "unat asize \<le> unat (GET_SIZE s (HDRP x))" using fits by (simp add: word_le_nat_alt)
  with xs have small: "unat asize < 2 ^ 31" by simp
  have all_small: "\<forall>x\<in>set (concat bins). unat (GET_SIZE s (HDRP x)) < 2 ^ 31"
    using sb ba by (rule sized_bins_small)
  from find_fit_bins [OF ba all_small nz small] obtain k where
    k: "get_list_index (to_int asize) = Inr k" and k15: "k < 15"
    and ff: "find_fit s asize = Some (Inr (first_fit_of s asize (concat (drop k bins))))"
    by blast
  have le: "to_int asize \<le> to_int (GET_SIZE s (HDRP x))"
    using fits small xs by (simp add: to_int_le_iff)
  have nn: "0 \<le> to_int asize" using small by (simp add: to_int_small)
  from get_list_index_mono [OF nn le] k xi have ki: "k \<le> i" by simp
  have "bins ! i \<in> set (drop k bins)"
    using ki i len by (auto simp: in_set_conv_nth intro!: exI [of _ "i - k"])
  with x have mem: "x \<in> set (concat (drop k bins))" by auto
  with fits have ex: "\<exists>y\<in>set (concat (drop k bins)). asize \<le> GET_SIZE s (HDRP y)" by blast
  have nonnull: "NULL \<notin> set (concat (drop k bins))"
  proof
    assume "NULL \<in> set (concat (drop k bins))"
    then obtain ys where ys: "ys \<in> set (drop k bins)" and n: "NULL \<in> set ys" by auto
    from ys have "ys \<in> set bins" by (rule in_set_dropD)
    then obtain j where j: "j < length bins" "bins ! j = ys"
      by (auto simp: in_set_conv_nth)
    then have "bin_chain s (GET s (bin_slot s j)) ys"
      using bins_are_nth [OF ba, of j] len by simp
    from bin_chain_not_null [OF this n] show False by simp
  qed
  from first_fit_of_fits [OF ex] nonnull
  have "first_fit_of s asize (concat (drop k bins)) \<noteq> NULL"
    "asize \<le> GET_SIZE s (HDRP (first_fit_of s asize (concat (drop k bins))))"
    by auto
  with ff k ki mem
  show "(\<exists>k. get_list_index (to_int asize) = Inr k \<and> k \<le> i \<and> x \<in> set (concat (drop k bins))) \<and>
      (\<exists>bp. find_fit s asize = Some (Inr bp) \<and> bp \<noteq> NULL \<and> asize \<le> GET_SIZE s (HDRP bp))"
    by simp
qed

lemma first_fit_start_small_blocks_example:
  "get_list_index 200 = Inr 1 \<and> get_list_index 3864 = Inr 5 \<and>
   find_fit heapB4 200 = Some (Inr 65936) \<and> (200 :: uintptr) \<le> GET_SIZE heapB4 (HDRP 65936)"
proof -
  have sb: "sized_bins heapB4 binsB4"
    unfolding sized_bins_def binsB4_def
    by (simp add: mm_consts upt_rec) (simp add: heapB4_def run_simps)
  have x: "(65936 :: uintptr) \<in> set (binsB4 ! 5)" by (simp add: binsB4_def)
  have fits: "(200 :: uintptr) \<le> GET_SIZE heapB4 (HDRP 65936)"
    by (simp add: heapB4_def run_simps)
  have g: "get_list_index 200 = Inr 1" "get_list_index 3864 = Inr 5"
    by (simp_all add: run_simps)
  have ff: "find_fit heapB4 200 = Some (Inr 65936)"
    by (simp add: heapB4_def run_simps cong: run_congs)
  from first_fit_start_small_blocks [of 200 3864 heapB4 binsB4 200 5 65936]
    bins_are_B4 sb x fits g ff
  show ?thesis by simp
qed

lemma bins_are_G3: "bins_are heapG3 binsG3"
  by (simp add: bins_are_def binsG3_def heapG3_def run_simps)

text \<open>
  Claim C10 fails on the code, through the defect of claim C6. \<open>get_list_index\<close> is
  total and monotone on the sizes it is given (lemma \<open>get_list_index_mono\<close>), but the
  block sizes are \<open>size_t\<close> values and \<open>insert_block\<close>, \<open>delete_block\<close> and
  \<open>get_list_index\<close> take them as \<open>int\<close>: a free block of \<open>2 ^ 31\<close> bytes or
  more is filed under the low 32 bits of its size. On a region that the provider lets grow
  beyond 8 GiB, the run \<open>mm_init; p = mm_malloc(8589942768); mm_free(p)\<close> stays inside
  the heap and leaves one free block, of 8589946896 bytes, filed in bin 7, the bin of
  \<open>12304 = 8589946896 mod 2 ^ 32\<close>. The search for 20016 bytes, the adjusted size of
  \<open>mm_malloc(20000)\<close>, starts at bin 8: the block satisfies the request and is in a bin
  before the start bin, and \<open>find_fit\<close> returns \<open>NULL\<close>.
\<close>

theorem first_fit_start_loses_large_block:
  "mm_init fresh_big = Inr (0, heapG1) \<and>
   mm_malloc heapG1 8589942768 = Some (Inr (65688, heapG2)) \<and>
   mm_free heapG2 65688 = Inr heapG3 \<and>
   mem_brk heapG3 = 8590012584 \<and>
   bins_are heapG3 binsG3 \<and>
   65688 \<in> set (binsG3 ! 7) \<and>
   GET heapG3 (HDRP 65688) = PACK 8589946896 0 \<and>
   malloc_asize 20000 = 20016 \<and>
   20016 \<le> GET_SIZE heapG3 (HDRP 65688) \<and>
   get_list_index (to_int (GET_SIZE heapG3 (HDRP 65688))) = Inr 7 \<and>
   get_list_index (to_int 20016) = Inr 8 \<and>
   first_fit_of heapG3 20016 (concat binsG3) = 65688 \<and>
   find_fit heapG3 20016 = Some (Inr NULL)"
proof -
  have "mem_brk heapG3 = 8590012584"
    by (simp add: heapG3_def)
  moreover have "65688 \<in> set (binsG3 ! 7)"
    by (simp add: binsG3_def)
  moreover have "GET heapG3 (HDRP 65688) = PACK 8589946896 0"
    "(20016 :: uintptr) \<le> GET_SIZE heapG3 (HDRP 65688)"
    "get_list_index (to_int (GET_SIZE heapG3 (HDRP 65688))) = Inr 7"
    "first_fit_of heapG3 20016 (concat binsG3) = 65688"
    by (simp_all add: heapG3_def binsG3_def first_fit_of_def run_simps)
  moreover have "get_list_index (to_int 20016) = Inr 8" "malloc_asize 20000 = 20016"
    by (simp_all add: run_simps)
  moreover have "find_fit heapG3 20016 = Some (Inr NULL)"
    by (simp add: heapG3_def run_simps cong: run_congs)
  ultimately show ?thesis
    using runG_init runG_malloc runG_free bins_are_G3 by simp
qed

end
